theory Spec2Isabelle
  imports Complex_Main
begin

section \<open>Python values used by the pricing engine\<close>

subsection \<open>Binary64 floats\<close>

text \<open>
  A Python \<open>float\<close> is an IEEE 754 binary64 value. A finite nonzero value is kept as the
  exact rational it denotes; positive zero is \<open>Finite 0\<close>; negative zero, the two
  infinities and NaN are constructors of their own.
\<close>

datatype pyfloat = Finite rat | NegZero | PosInf | NegInf | NaN

text \<open>\<open>ilog2 n\<close> is \<open>\<lfloor>log 2 n\<rfloor>\<close> for \<open>n \<ge> 1\<close>.\<close>

function ilog2 :: "int \<Rightarrow> int" where
  "ilog2 n = (if n \<le> 1 then 0 else 1 + ilog2 (n div 2))"
  by pat_completeness auto
termination
  by (relation "measure nat") auto

declare ilog2.simps [simp del]

text \<open>
  \<open>expo x\<close> is the binary exponent of a positive rational:
  \<open>2 powi expo x \<le> x < 2 powi (expo x + 1)\<close>.
\<close>

definition expo :: "rat \<Rightarrow> int" where
  "expo x = (if 1 \<le> x then ilog2 \<lfloor>x\<rfloor> else - (ilog2 (\<lceil>1 / x\<rceil> - 1) + 1))"

definition round_half_even :: "rat \<Rightarrow> int" where
  "round_half_even x =
     (let n = \<lfloor>x\<rfloor>; d = x - of_int n
      in if d < 1 / 2 then n else if 1 / 2 < d then n + 1 else if even n then n else n + 1)"

text \<open>
  Correct rounding of an exact value to binary64 (round to nearest, ties to even): 53
  significant bits, the quantum never below \<open>2 powi - 1074\<close> (subnormals), and overflow
  to an infinity from \<open>2 powi 1024\<close> on. Every float operation of the engine is the exact
  operation followed by this rounding.
\<close>

definition fl_round :: "rat \<Rightarrow> pyfloat" where
  "fl_round x =
     (if x = 0 then Finite 0
      else let q = max (expo \<bar>x\<bar> - 52) (- 1074);
               m = round_half_even (\<bar>x\<bar> / 2 powi q);
               v = of_int m * 2 powi q
           in if 2 powi 1024 \<le> v then (if 0 < x then PosInf else NegInf)
              else if m = 0 then (if 0 < x then Finite 0 else NegZero)
              else Finite (if 0 < x then v else - v))"

fun fclass :: "pyfloat \<Rightarrow> int" where
  "fclass NegInf = - 1"
| "fclass PosInf = 1"
| "fclass _ = 0"

fun fval :: "pyfloat \<Rightarrow> rat" where
  "fval (Finite x) = x"
| "fval _ = 0"

fun fsign :: "pyfloat \<Rightarrow> bool" where
  "fsign (Finite x) = (x < 0)"
| "fsign NegZero = True"
| "fsign NegInf = True"
| "fsign _ = False"

text \<open>The comparisons \<open>a < b\<close> and \<open>a <= b\<close> of two floats: false as soon as one is NaN.\<close>

definition fless :: "pyfloat \<Rightarrow> pyfloat \<Rightarrow> bool" where
  "fless a b = (a \<noteq> NaN \<and> b \<noteq> NaN \<and>
     (fclass a < fclass b \<or> (fclass a = 0 \<and> fclass b = 0 \<and> fval a < fval b)))"

definition fle :: "pyfloat \<Rightarrow> pyfloat \<Rightarrow> bool" where
  "fle a b = (a \<noteq> NaN \<and> b \<noteq> NaN \<and>
     (fclass a < fclass b \<or> (fclass a = fclass b \<and> fval a \<le> fval b)))"

text \<open>\<open>a * b\<close> on floats.\<close>

definition fmul :: "pyfloat \<Rightarrow> pyfloat \<Rightarrow> pyfloat" where
  "fmul a b =
     (if a = NaN \<or> b = NaN then NaN
      else if fclass a = 0 \<and> fclass b = 0 then
        (if fval a * fval b = 0 then (if fsign a \<noteq> fsign b then NegZero else Finite 0)
         else fl_round (fval a * fval b))
      else if (fclass a = 0 \<and> fval a = 0) \<or> (fclass b = 0 \<and> fval b = 0) then NaN
      else if fsign a \<noteq> fsign b then NegInf else PosInf)"

text \<open>
  \<open>max(a, b)\<close> with two arguments keeps \<open>a\<close> unless \<open>b > a\<close>.
\<close>

definition py_max :: "pyfloat \<Rightarrow> pyfloat \<Rightarrow> pyfloat" where
  "py_max a b = (if fless a b then b else a)"

text \<open>
  \<open>round(x, 2)\<close>: NaN, the infinities and the zeros round to themselves; a finite value
  is rounded in decimal on its exact value, ties to even, and the two-digit decimal is
  converted back to the nearest float. The sign survives a result of zero.
\<close>

definition py_round2 :: "pyfloat \<Rightarrow> pyfloat" where
  "py_round2 a =
     (case a of
        Finite x \<Rightarrow>
          (let n = round_half_even (\<bar>x\<bar> * 100)
           in if n = 0 then (if x < 0 then NegZero else Finite 0)
              else fl_round ((if x < 0 then - 1 else 1) * of_int n / 100))
      | _ \<Rightarrow> a)"

text \<open>The float literals of the four rules.\<close>

definition lit_1_15 :: pyfloat where "lit_1_15 = fl_round (115 / 100)"
definition lit_0_7 :: pyfloat where "lit_0_7 = fl_round (7 / 10)"
definition lit_0_9 :: pyfloat where "lit_0_9 = fl_round (9 / 10)"
definition lit_1_2 :: pyfloat where "lit_1_2 = fl_round (12 / 10)"

subsection \<open>Decimal text\<close>

definition is_digit :: "char \<Rightarrow> bool" where
  "is_digit c = (let n = (of_char c :: nat) in 48 \<le> n \<and> n \<le> 57)"

definition digit_val :: "char \<Rightarrow> nat" where
  "digit_val c = of_char c - 48"

text \<open>
  The text of a cell is a \<open>string\<close> of code points below 256. The whitespace \<open>int\<close>
  and \<open>float\<close> strip from both ends of it: the ASCII characters 9 to 13 and 32, and
  the two others below 256, U+0085 and U+00A0.
\<close>

definition is_space :: "char \<Rightarrow> bool" where
  "is_space c =
     (let n = (of_char c :: nat) in n = 32 \<or> (9 \<le> n \<and> n \<le> 13) \<or> n = 133 \<or> n = 160)"

definition strip :: "string \<Rightarrow> string" where
  "strip s = rev (dropWhile is_space (rev (dropWhile is_space s)))"

definition to_lower :: "char \<Rightarrow> char" where
  "to_lower c = (let n = (of_char c :: nat) in if 65 \<le> n \<and> n \<le> 90 then char_of (n + 32) else c)"

text \<open>
  \<open>digit_tail\<close> reads \<open>(["_"] digit)*\<close>, \<open>digitpart\<close> reads \<open>digit (["_"] digit)*\<close>: an
  underscore is accepted only between two digits. Both return the digits read and the
  rest of the text.
\<close>

fun digit_tail :: "string \<Rightarrow> string \<times> string" where
  "digit_tail [] = ([], [])"
| "digit_tail [c] = (if is_digit c then ([c], []) else ([], [c]))"
| "digit_tail (c # d # cs) =
     (if is_digit c then (case digit_tail (d # cs) of (ds, r) \<Rightarrow> (c # ds, r))
      else if c = CHR ''_'' \<and> is_digit d then (case digit_tail cs of (ds, r) \<Rightarrow> (d # ds, r))
      else ([], c # d # cs))"

definition digitpart :: "string \<Rightarrow> string \<times> string" where
  "digitpart s =
     (case s of
        [] \<Rightarrow> ([], [])
      | c # cs \<Rightarrow> if is_digit c then (case digit_tail cs of (ds, r) \<Rightarrow> (c # ds, r)) else ([], s))"

definition digits_val :: "string \<Rightarrow> nat" where
  "digits_val ds = foldl (\<lambda>a c. 10 * a + digit_val c) 0 ds"

definition split_sign :: "string \<Rightarrow> bool \<times> string" where
  "split_sign s =
     (case s of
        [] \<Rightarrow> (False, [])
      | c # cs \<Rightarrow> if c = CHR ''-'' then (True, cs) else if c = CHR ''+'' then (False, cs) else (False, s))"

text \<open>
  \<open>int(s)\<close> for a string, base 10: surrounding whitespace, an optional sign, digits
  with single underscores between them. \<open>None\<close> stands for the \<open>ValueError\<close>.
  Below code point 256 the decimal digits are the ASCII ones. Code points from 256 on,
  among them further digits and spaces Python accepts, have no counterpart in a
  \<open>string\<close>, and the limit recent versions put on the number of digits is left out.
\<close>

definition parse_int :: "string \<Rightarrow> int option" where
  "parse_int s =
     (case split_sign (strip s) of (neg, body) \<Rightarrow>
        (case digitpart body of (ds, r) \<Rightarrow>
           if ds = [] \<or> r \<noteq> [] then None
           else Some (if neg then - int (digits_val ds) else int (digits_val ds))))"

text \<open>
  \<open>float(s)\<close> for a string: surrounding whitespace, an optional sign, then
  \<open>inf\<close>, \<open>infinity\<close> or \<open>nan\<close> in any case, or a decimal number with an optional
  fraction and an optional exponent. The exact decimal value is rounded once.
\<close>

definition parse_exponent :: "string \<Rightarrow> int option" where
  "parse_exponent s =
     (case s of
        [] \<Rightarrow> Some 0
      | c # cs \<Rightarrow>
          if c = CHR ''e'' \<or> c = CHR ''E'' then
            (case split_sign cs of (neg, body) \<Rightarrow>
               (case digitpart body of (ds, r) \<Rightarrow>
                  if ds = [] \<or> r \<noteq> [] then None
                  else Some (if neg then - int (digits_val ds) else int (digits_val ds))))
          else None)"

definition parse_float :: "string \<Rightarrow> pyfloat option" where
  "parse_float s =
     (case split_sign (strip s) of (neg, body) \<Rightarrow>
        if map to_lower body = ''inf'' \<or> map to_lower body = ''infinity''
          then Some (if neg then NegInf else PosInf)
        else if map to_lower body = ''nan'' then Some NaN
        else
          (case digitpart body of (ip, r1) \<Rightarrow>
             (case (case r1 of
                      c # cs \<Rightarrow> if c = CHR ''.'' then digitpart cs else ([], r1)
                    | [] \<Rightarrow> ([], r1)) of (fp, r2) \<Rightarrow>
                if ip = [] \<and> fp = [] then None
                else
                  (case parse_exponent r2 of
                     None \<Rightarrow> None
                   | Some e \<Rightarrow>
                       (let m = of_nat (digits_val ip) + of_nat (digits_val fp) / 10 ^ length fp;
                            x = m * 10 powi e
                        in if x = 0 then Some (if neg then NegZero else Finite 0)
                           else Some (fl_round (if neg then - x else x)))))))"

subsection \<open>Values, dictionaries, exceptions\<close>

text \<open>
  The values a row dictionary holds: the text of a cell, \<open>None\<close> for a cell the row is
  too short for, and the numbers the engine itself stores or a caller passes.
\<close>

datatype pyval = PStr string | PNone | PInt int | PFloat pyfloat

datatype py_error =
    KeyError string
  | ValueError
  | TypeError
  | OverflowError
  | FileNotFoundError string

type_synonym pydict = "string \<rightharpoonup> pyval"

definition bind_err :: "'e + 'a \<Rightarrow> ('a \<Rightarrow> 'e + 'b) \<Rightarrow> 'e + 'b" where
  "bind_err m f = (case m of Inl e \<Rightarrow> Inl e | Inr v \<Rightarrow> f v)"

text \<open>\<open>d[k]\<close> raises \<open>KeyError\<close> on a missing key.\<close>

definition getitem :: "pydict \<Rightarrow> string \<Rightarrow> py_error + pyval" where
  "getitem d k = (case d k of None \<Rightarrow> Inl (KeyError k) | Some v \<Rightarrow> Inr v)"

text \<open>\<open>d.get(k, default)\<close>.\<close>

definition dict_get :: "pydict \<Rightarrow> string \<Rightarrow> pyval \<Rightarrow> pyval" where
  "dict_get d k dflt = (case d k of None \<Rightarrow> dflt | Some v \<Rightarrow> v)"

text \<open>The builtin \<open>int(v)\<close>.\<close>

definition py_int :: "pyval \<Rightarrow> py_error + int" where
  "py_int v =
     (case v of
        PInt n \<Rightarrow> Inr n
      | PStr s \<Rightarrow> (case parse_int s of None \<Rightarrow> Inl ValueError | Some n \<Rightarrow> Inr n)
      | PNone \<Rightarrow> Inl TypeError
      | PFloat a \<Rightarrow>
          (case a of
             NaN \<Rightarrow> Inl ValueError
           | PosInf \<Rightarrow> Inl OverflowError
           | NegInf \<Rightarrow> Inl OverflowError
           | NegZero \<Rightarrow> Inr 0
           | Finite x \<Rightarrow> Inr (if 0 \<le> x then \<lfloor>x\<rfloor> else \<lceil>x\<rceil>)))"

text \<open>The builtin \<open>float(v)\<close>.\<close>

definition py_float :: "pyval \<Rightarrow> py_error + pyfloat" where
  "py_float v =
     (case v of
        PFloat a \<Rightarrow> Inr a
      | PStr s \<Rightarrow> (case parse_float s of None \<Rightarrow> Inl ValueError | Some a \<Rightarrow> Inr a)
      | PNone \<Rightarrow> Inl TypeError
      | PInt n \<Rightarrow>
          (let a = fl_round (of_int n)
           in if fclass a \<noteq> 0 then Inl OverflowError else Inr a))"

section \<open>Pricing rules\<close>

text \<open>
  The four subclasses of \<open>PricingRule\<close>; each instance carries its \<open>priority\<close>
  (lower number, higher priority).
\<close>

datatype PricingRule =
    LowStockHighDemandRule (priority: int)
  | DeadStockRule (priority: int)
  | OverstockedInventoryRule (priority: int)
  | is_MinimumProfitRule: MinimumProfitRule (priority: int)

text \<open>\<open>int(sales_data.get('quantity_sold', 0))\<close>.\<close>

definition quantity_sold :: "pydict \<Rightarrow> py_error + int" where
  "quantity_sold sales_data = py_int (dict_get sales_data ''quantity_sold'' (PInt 0))"

text \<open>
  \<open>int(product['stock']) < 20 and int(sales_data.get('quantity_sold', 0)) > 30\<close>, and
  its two siblings: the right operand of \<open>and\<close> is evaluated only when the left one
  holds.
\<close>

fun should_apply :: "PricingRule \<Rightarrow> pydict \<Rightarrow> pydict \<Rightarrow> py_error + bool" where
  "should_apply (LowStockHighDemandRule _) product sales_data =
     bind_err (getitem product ''stock'') (\<lambda>v.
     bind_err (py_int v) (\<lambda>stock.
       if stock < 20 then bind_err (quantity_sold sales_data) (\<lambda>q. Inr (q > 30))
       else Inr False))"
| "should_apply (DeadStockRule _) product sales_data =
     bind_err (getitem product ''stock'') (\<lambda>v.
     bind_err (py_int v) (\<lambda>stock.
       if stock > 200 then bind_err (quantity_sold sales_data) (\<lambda>q. Inr (q = 0))
       else Inr False))"
| "should_apply (OverstockedInventoryRule _) product sales_data =
     bind_err (getitem product ''stock'') (\<lambda>v.
     bind_err (py_int v) (\<lambda>stock.
       if stock > 100 then bind_err (quantity_sold sales_data) (\<lambda>q. Inr (q < 20))
       else Inr False))"
| "should_apply (MinimumProfitRule _) product sales_data = Inr True"

text \<open>
  \<open>apply\<close>. The margin rule reads \<open>product.get('new_price', product['current_price'])\<close>:
  the default \<open>product['current_price']\<close> is evaluated before \<open>get\<close> is called, so a
  missing \<open>current_price\<close> raises even when \<open>new_price\<close> is there.
\<close>

fun apply_rule :: "PricingRule \<Rightarrow> pydict \<Rightarrow> pydict \<Rightarrow> py_error + pyfloat" where
  "apply_rule (LowStockHighDemandRule _) product sales_data =
     bind_err (getitem product ''current_price'') (\<lambda>v.
     bind_err (py_float v) (\<lambda>current_price. Inr (fmul current_price lit_1_15)))"
| "apply_rule (DeadStockRule _) product sales_data =
     bind_err (getitem product ''current_price'') (\<lambda>v.
     bind_err (py_float v) (\<lambda>current_price. Inr (fmul current_price lit_0_7)))"
| "apply_rule (OverstockedInventoryRule _) product sales_data =
     bind_err (getitem product ''current_price'') (\<lambda>v.
     bind_err (py_float v) (\<lambda>current_price. Inr (fmul current_price lit_0_9)))"
| "apply_rule (MinimumProfitRule _) product sales_data =
     bind_err (getitem product ''cost_price'') (\<lambda>c.
     bind_err (py_float c) (\<lambda>cost_price.
       let minimum_price = fmul cost_price lit_1_2
       in bind_err (getitem product ''current_price'') (\<lambda>dflt.
          bind_err (py_float (dict_get product ''new_price'' dflt)) (\<lambda>current_new_price.
            Inr (py_max current_new_price minimum_price)))))"

section \<open>The pricing engine\<close>

record PricingEngine =
  rules :: "PricingRule list"

definition new_engine :: PricingEngine where
  "new_engine = \<lparr>rules = []\<rparr>"

text \<open>
  \<open>add_rule\<close> appends and sorts. \<open>list.sort\<close> is stable and compares with \<open>__lt__\<close>,
  that is by priority.
\<close>

definition add_rule :: "PricingEngine \<Rightarrow> PricingRule \<Rightarrow> PricingEngine" where
  "add_rule eng rule = eng\<lparr>rules := sort_key priority (rules eng @ [rule])\<rparr>"

text \<open>The classes \<open>remove_rule\<close> can be given, and \<open>isinstance\<close>.\<close>

datatype rule_class =
    PricingRule_class
  | LowStockHighDemandRule_class
  | DeadStockRule_class
  | OverstockedInventoryRule_class
  | MinimumProfitRule_class

fun isinstance :: "PricingRule \<Rightarrow> rule_class \<Rightarrow> bool" where
  "isinstance _ PricingRule_class = True"
| "isinstance (LowStockHighDemandRule _) c = (c = LowStockHighDemandRule_class)"
| "isinstance (DeadStockRule _) c = (c = DeadStockRule_class)"
| "isinstance (OverstockedInventoryRule _) c = (c = OverstockedInventoryRule_class)"
| "isinstance (MinimumProfitRule _) c = (c = MinimumProfitRule_class)"

definition remove_rule :: "PricingEngine \<Rightarrow> rule_class \<Rightarrow> PricingEngine" where
  "remove_rule eng c = eng\<lparr>rules := filter (\<lambda>rule. \<not> isinstance rule c) (rules eng)\<rparr>"

text \<open>
  The loop of \<open>process_product\<close> over \<open>self.rules\<close>: the margin rule is skipped, the
  first rule whose \<open>should_apply\<close> holds is applied and ends the loop. \<open>None\<close> is
  \<open>applied_exclusive_rule = False\<close>.
\<close>

fun scan_rules :: "PricingRule list \<Rightarrow> pydict \<Rightarrow> pydict \<Rightarrow> py_error + pyfloat option" where
  "scan_rules [] product sales_data = Inr None"
| "scan_rules (rule # rest) product sales_data =
     (if is_MinimumProfitRule rule then scan_rules rest product sales_data
      else bind_err (should_apply rule product sales_data) (\<lambda>b.
             if b then bind_err (apply_rule rule product sales_data) (\<lambda>p. Inr (Some p))
             else scan_rules rest product sales_data))"

text \<open>
  Phase 1: \<open>result['new_price']\<close> after the loop and the fallback to
  \<open>float(product['current_price'])\<close>.
\<close>

definition phase1 :: "PricingEngine \<Rightarrow> pydict \<Rightarrow> pydict \<Rightarrow> py_error + pyfloat" where
  "phase1 eng product sales_data =
     bind_err (scan_rules (rules eng) product sales_data) (\<lambda>applied.
       case applied of
         Some p \<Rightarrow> Inr p
       | None \<Rightarrow> bind_err (getitem product ''current_price'') py_float)"

text \<open>
  Phase 2: the first margin rule of the engine, if there is one, applied to \<open>result\<close>.
\<close>

definition phase2 :: "PricingEngine \<Rightarrow> pydict \<Rightarrow> pydict \<Rightarrow> pyfloat \<Rightarrow> py_error + pyfloat" where
  "phase2 eng result sales_data p =
     (case filter is_MinimumProfitRule (rules eng) of
        [] \<Rightarrow> Inr p
      | min_profit_rule # _ \<Rightarrow> apply_rule min_profit_rule result sales_data)"

definition process_product :: "PricingEngine \<Rightarrow> pydict \<Rightarrow> pydict \<Rightarrow> py_error + pydict" where
  "process_product eng product sales_data =
     bind_err (getitem product ''current_price'') (\<lambda>v.
     bind_err (py_float v) (\<lambda>old_price.
       let result = product(''old_price'' \<mapsto> PFloat old_price)
       in bind_err (phase1 eng product sales_data) (\<lambda>p1.
          let result = result(''new_price'' \<mapsto> PFloat p1)
          in bind_err (phase2 eng result sales_data p1) (\<lambda>p2.
               Inr (result(''new_price'' \<mapsto> PFloat (py_round2 p2)))))))"

text \<open>The engine of \<open>run_interactive_pricing_engine\<close>.\<close>

definition standard_engine :: PricingEngine where
  "standard_engine =
     add_rule (add_rule (add_rule (add_rule new_engine
       (LowStockHighDemandRule 1)) (DeadStockRule 2)) (OverstockedInventoryRule 3))
       (MinimumProfitRule 4)"

section \<open>The pipeline\<close>

subsection \<open>Formatting\<close>

fun show_nat :: "nat \<Rightarrow> string" where
  "show_nat n =
     (if n < 10 then [''0123456789'' ! n]
      else show_nat (n div 10) @ [''0123456789'' ! (n mod 10)])"

declare show_nat.simps [simp del]

text \<open>
  The format \<open>.2f\<close> of a float: the exact value rounded to two decimals, ties to even.
\<close>

definition format_2f :: "pyfloat \<Rightarrow> string" where
  "format_2f a =
     (case a of
        NaN \<Rightarrow> ''nan''
      | PosInf \<Rightarrow> ''inf''
      | NegInf \<Rightarrow> ''-inf''
      | NegZero \<Rightarrow> ''-0.00''
      | Finite x \<Rightarrow>
          (let n = nat (round_half_even (\<bar>x\<bar> * 100))
           in (if x < 0 then ''-'' else []) @ show_nat (n div 100) @ ''.'' @
              show_nat (n mod 100 div 10) @ show_nat (n mod 10)))"

text \<open>\<open>f"${v:.2f}"\<close>: an \<open>int\<close> is formatted as the float it converts to.\<close>

definition format_price :: "pyval \<Rightarrow> py_error + string" where
  "format_price v =
     (case v of
        PStr _ \<Rightarrow> Inl ValueError
      | PNone \<Rightarrow> Inl TypeError
      | _ \<Rightarrow> bind_err (py_float v) (\<lambda>a. Inr (''$'' @ format_2f a)))"

record out_row =
  sku :: pyval
  old_price :: string
  new_price :: string

text \<open>The row dictionary \<open>write_output\<close> builds for one processed product.\<close>

definition format_row :: "pydict \<Rightarrow> py_error + out_row" where
  "format_row product =
     bind_err (getitem product ''sku'') (\<lambda>s.
     bind_err (getitem product ''old_price'') (\<lambda>ov.
     bind_err (format_price ov) (\<lambda>ops.
     bind_err (getitem product ''new_price'') (\<lambda>nv.
     bind_err (format_price nv) (\<lambda>nps.
       Inr \<lparr>sku = s, old_price = ops, new_price = nps\<rparr>)))))"

subsection \<open>Files and library functions\<close>

text \<open>
  A file system maps a path to the bytes of the regular file there; a path with no
  entry does not exist. Opening an existing file for reading and opening the output
  file for writing are taken to succeed. The library functions the pipeline calls are
  parameters: the MD5 digest in hexadecimal, the rows \<open>csv.DictReader\<close> yields for a
  text, and the text \<open>csv.DictWriter\<close> produces for the header
  \<open>sku, old_price, new_price\<close> followed by the given rows.
\<close>

type_synonym filesystem = "string \<rightharpoonup> string"

record pylib =
  md5_hexdigest :: "string \<Rightarrow> string"
  csv_DictReader :: "string \<Rightarrow> pydict list"
  csv_DictWriter :: "out_row list \<Rightarrow> string"

subsection \<open>Loading and streaming\<close>

text \<open>\<open>sales_data[row['sku']] = row\<close> for every row, in order.\<close>

fun index_rows :: "pydict list \<Rightarrow> (pyval \<rightharpoonup> pydict) \<Rightarrow> py_error + (pyval \<rightharpoonup> pydict)" where
  "index_rows [] sales_data = Inr sales_data"
| "index_rows (row # rest) sales_data =
     bind_err (getitem row ''sku'') (\<lambda>k. index_rows rest (sales_data(k \<mapsto> row)))"

definition load_sales_data :: "pylib \<Rightarrow> filesystem \<Rightarrow> string \<Rightarrow> py_error + (pyval \<rightharpoonup> pydict)" where
  "load_sales_data lib fs file_path =
     (case fs file_path of
        None \<Rightarrow> Inl (FileNotFoundError file_path)
      | Some text \<Rightarrow> index_rows (csv_DictReader lib text) Map.empty)"

text \<open>The default of \<open>sales_data.get(product['sku'], {'quantity_sold': '0'})\<close>.\<close>

definition default_sales :: pydict where
  "default_sales = [''quantity_sold'' \<mapsto> PStr ''0'']"

definition product_sales :: "(pyval \<rightharpoonup> pydict) \<Rightarrow> pyval \<Rightarrow> pydict" where
  "product_sales sales_data k = (case sales_data k of None \<Rightarrow> default_sales | Some row \<Rightarrow> row)"

text \<open>
  A generator is modelled by what it yields before it ends: the list of items, and the
  exception that ended it, if one did. \<open>stream_rows\<close> is the loop of \<open>process_products\<close>
  over the product rows.
\<close>

fun stream_rows ::
  "PricingEngine \<Rightarrow> (pyval \<rightharpoonup> pydict) \<Rightarrow> pydict list \<Rightarrow> pydict list \<times> py_error option" where
  "stream_rows eng sales_data [] = ([], None)"
| "stream_rows eng sales_data (product # rest) =
     (case bind_err (getitem product ''sku'') (\<lambda>k.
             process_product eng product (product_sales sales_data k)) of
        Inl e \<Rightarrow> ([], Some e)
      | Inr result \<Rightarrow>
          (case stream_rows eng sales_data rest of (results, e) \<Rightarrow> (result # results, e)))"

definition process_products ::
  "pylib \<Rightarrow> filesystem \<Rightarrow> string \<Rightarrow> string \<Rightarrow> PricingEngine \<Rightarrow> pydict list \<times> py_error option" where
  "process_products lib fs products_file sales_file pricing_engine =
     (case load_sales_data lib fs sales_file of
        Inl e \<Rightarrow> ([], Some e)
      | Inr sales_data \<Rightarrow>
          (case fs products_file of
             None \<Rightarrow> ([], Some (FileNotFoundError products_file))
           | Some text \<Rightarrow> stream_rows pricing_engine sales_data (csv_DictReader lib text)))"

text \<open>
  \<open>write_output\<close> opens the output file for writing, writes the header and then one row
  per item it draws from the generator. An exception, from the generator or from the
  formatting of a row, ends the loop; the \<open>with\<close> block closes the file, which keeps the
  header and the rows written so far.
\<close>

fun write_rows :: "pydict list \<Rightarrow> out_row list \<times> py_error option" where
  "write_rows [] = ([], None)"
| "write_rows (product # rest) =
     (case format_row product of
        Inl e \<Rightarrow> ([], Some e)
      | Inr row \<Rightarrow> (case write_rows rest of (rows, e) \<Rightarrow> (row # rows, e)))"

definition write_output ::
  "pylib \<Rightarrow> filesystem \<Rightarrow> pydict list \<times> py_error option \<Rightarrow> string \<Rightarrow> filesystem \<times> py_error option" where
  "write_output lib fs products output_file =
     (case write_rows (fst products) of (rows, e) \<Rightarrow>
        (fs(output_file \<mapsto> csv_DictWriter lib rows),
         case e of Some x \<Rightarrow> Some x | None \<Rightarrow> snd products))"

subsection \<open>Change detection\<close>

definition calculate_file_hash :: "pylib \<Rightarrow> filesystem \<Rightarrow> string \<Rightarrow> string" where
  "calculate_file_hash lib fs file_path =
     (case fs file_path of None \<Rightarrow> [] | Some buf \<Rightarrow> md5_hexdigest lib buf)"

record CSVChangeHandler =
  products_file :: string
  sales_file :: string
  output_file :: string
  pricing_engine :: PricingEngine
  products_hash :: string
  sales_hash :: string

text \<open>What \<open>process_files\<close> prints: nothing, the update line, or the error line.\<close>

datatype message = Files_changed | Error_processing py_error

text \<open>The body of the \<open>try\<close> block: one pass.\<close>

definition run_pass :: "pylib \<Rightarrow> CSVChangeHandler \<Rightarrow> filesystem \<Rightarrow> filesystem \<times> py_error option" where
  "run_pass lib h fs =
     write_output lib fs
       (process_products lib fs (products_file h) (sales_file h) (pricing_engine h))
       (output_file h)"

definition process_files ::
  "pylib \<Rightarrow> CSVChangeHandler \<times> filesystem \<Rightarrow> CSVChangeHandler \<times> filesystem \<times> message option" where
  "process_files lib st =
     (case st of (h, fs) \<Rightarrow>
        let new_products_hash = calculate_file_hash lib fs (products_file h);
            new_sales_hash = calculate_file_hash lib fs (sales_file h);
            h1 = (if new_products_hash \<noteq> products_hash h
                  then h\<lparr>products_hash := new_products_hash\<rparr> else h);
            h2 = (if new_sales_hash \<noteq> sales_hash h1
                  then h1\<lparr>sales_hash := new_sales_hash\<rparr> else h1);
            files_changed = (new_products_hash \<noteq> products_hash h \<or> new_sales_hash \<noteq> sales_hash h)
        in if files_changed then
             (case run_pass lib h2 fs of
                (fs', None) \<Rightarrow> (h2, fs', Some Files_changed)
              | (fs', Some e) \<Rightarrow> (h2, fs', Some (Error_processing e)))
           else (h2, fs, None))"

text \<open>The constructor stores the two digests and then checks once.\<close>

definition new_handler ::
  "pylib \<Rightarrow> filesystem \<Rightarrow> string \<Rightarrow> string \<Rightarrow> string \<Rightarrow> PricingEngine \<Rightarrow>
     CSVChangeHandler \<times> filesystem \<times> message option" where
  "new_handler lib fs pf sf outf eng =
     process_files lib
       (\<lparr>products_file = pf, sales_file = sf, output_file = outf, pricing_engine = eng,
         products_hash = calculate_file_hash lib fs pf,
         sales_hash = calculate_file_hash lib fs sf\<rparr>, fs)"

text \<open>
  The engines a program can build: a fresh engine, changed only through \<open>add_rule\<close> and
  \<open>remove_rule\<close>.
\<close>

inductive reachable :: "PricingEngine \<Rightarrow> bool" where
  reachable_new: "reachable new_engine"
| reachable_add: "reachable eng \<Longrightarrow> reachable (add_rule eng rule)"
| reachable_remove: "reachable eng \<Longrightarrow> reachable (remove_rule eng c)"

section \<open>Sample data\<close>

text \<open>
  The third example of the specification: price 10.00, cost 9.00, stock 300, nothing
  sold.
\<close>

definition example_product :: pydict where
  "example_product =
     [''sku'' \<mapsto> PStr ''A1'', ''current_price'' \<mapsto> PFloat (Finite 10),
      ''cost_price'' \<mapsto> PFloat (Finite 9), ''stock'' \<mapsto> PInt 300]"

definition example_sales :: pydict where
  "example_sales = [''sku'' \<mapsto> PStr ''A1'', ''quantity_sold'' \<mapsto> PInt 0]"

text \<open>The same product and sales record as rows of text, the way \<open>csv.DictReader\<close> yields them.\<close>

definition example_product_row :: pydict where
  "example_product_row =
     [''sku'' \<mapsto> PStr ''A1'', ''current_price'' \<mapsto> PStr ''10.00'',
      ''cost_price'' \<mapsto> PStr ''9.00'', ''stock'' \<mapsto> PStr ''300'']"

definition example_sales_row :: pydict where
  "example_sales_row = [''sku'' \<mapsto> PStr ''A1'', ''quantity_sold'' \<mapsto> PStr ''0'']"

text \<open>A product no tier rule applies to, with a cost of 1.01 and a price of 1.00.\<close>

definition thin_margin_row :: pydict where
  "thin_margin_row =
     [''sku'' \<mapsto> PStr ''B7'', ''current_price'' \<mapsto> PStr ''1.00'',
      ''cost_price'' \<mapsto> PStr ''1.01'', ''stock'' \<mapsto> PStr ''50'']"

text \<open>A row whose stock is not a number.\<close>

definition bad_stock_row :: pydict where
  "bad_stock_row =
     [''sku'' \<mapsto> PStr ''C3'', ''current_price'' \<mapsto> PStr ''5.00'',
      ''cost_price'' \<mapsto> PStr ''2.00'', ''stock'' \<mapsto> PStr ''abc'']"

text \<open>
  Stand-ins for the three library functions, to run the pipeline on sample files: the
  reader knows three file contents by name, the writer joins the two price columns, the
  digest tags the content.
\<close>

definition sample_lib :: pylib where
  "sample_lib =
     \<lparr>md5_hexdigest = (\<lambda>buf. ''digest of '' @ buf),
      csv_DictReader = (\<lambda>text.
        if text = ''bad row first'' then [bad_stock_row, example_product_row]
        else if text = ''bad row second'' then [example_product_row, bad_stock_row, thin_margin_row]
        else if text = ''one sale'' then [example_sales_row]
        else []),
      csv_DictWriter = (\<lambda>rows. concat (map (\<lambda>r. old_price r @ '' '' @ new_price r @ ''; '') rows))\<rparr>"

definition sample_handler :: CSVChangeHandler where
  "sample_handler =
     \<lparr>products_file = ''products.csv'', sales_file = ''sales.csv'',
      output_file = ''updated_prices.csv'', pricing_engine = standard_engine,
      products_hash = [], sales_hash = []\<rparr>"

definition bad_first_fs :: filesystem where
  "bad_first_fs = [''products.csv'' \<mapsto> ''bad row first'', ''sales.csv'' \<mapsto> ''one sale'']"

definition bad_second_fs :: filesystem where
  "bad_second_fs = [''products.csv'' \<mapsto> ''bad row second'', ''sales.csv'' \<mapsto> ''one sale'']"

text \<open>
  A row is malformed when one of the three numeric fields the standard rules read is
  missing or does not convert.
\<close>

definition is_ok :: "'e + 'a \<Rightarrow> bool" where
  "is_ok r = (case r of Inl _ \<Rightarrow> False | Inr _ \<Rightarrow> True)"

definition malformed :: "pydict \<Rightarrow> bool" where
  "malformed product =
     (\<not> (is_ok (bind_err (getitem product ''stock'') py_int) \<and>
         is_ok (bind_err (getitem product ''current_price'') py_float) \<and>
         is_ok (bind_err (getitem product ''cost_price'') py_float)))"

text \<open>The exceptions a row can raise: every kind but \<open>FileNotFoundError\<close>.\<close>

definition data_error :: "py_error \<Rightarrow> bool" where
  "data_error e = (case e of FileNotFoundError _ \<Rightarrow> False | _ \<Rightarrow> True)"

text \<open>The handler with both stored digests set to those of the files as they are.\<close>

definition refreshed :: "pylib \<Rightarrow> CSVChangeHandler \<Rightarrow> filesystem \<Rightarrow> CSVChangeHandler" where
  "refreshed lib h fs =
     h\<lparr>products_hash := calculate_file_hash lib fs (products_file h),
       sales_hash := calculate_file_hash lib fs (sales_file h)\<rparr>"

section \<open>Verified properties\<close>

subsection \<open>Binary exponent and rounding\<close>

lemma ilog2_bounds: "1 \<le> n \<Longrightarrow> 0 \<le> ilog2 n \<and> 2 ^ nat (ilog2 n) \<le> n \<and> n < 2 * 2 ^ nat (ilog2 n)"
proof (induction n rule: ilog2.induct)
  case (1 n)
  show ?case
  proof (cases "n \<le> 1")
    case True
    with 1 show ?thesis by (simp add: ilog2.simps)
  next
    case False
    then have h: "1 \<le> n div 2" by simp
    define k :: int where "k = 2 ^ nat (ilog2 (n div 2))"
    from 1(1)[OF False h] have ih: "0 \<le> ilog2 (n div 2)" "k \<le> n div 2" "n div 2 < 2 * k"
      by (simp_all add: k_def)
    have e: "ilog2 n = 1 + ilog2 (n div 2)" using False by (simp add: ilog2.simps)
    have p: "(2::int) ^ nat (ilog2 n) = 2 * k"
      using ih(1) by (simp add: e nat_add_distrib k_def)
    from ih(2,3) have "2 * k \<le> n" "n < 2 * (2 * k)" by linarith+
    with ih(1) e show ?thesis unfolding p by simp
  qed
qed

lemma powi_nat: "0 \<le> k \<Longrightarrow> (2::rat) powi k = of_int (2 ^ nat k)"
  by (simp add: power_int_def)

lemma expo_bounds:
  assumes "0 < x"
  shows "2 powi (expo x) \<le> x \<and> x < 2 powi (expo x + 1)"
proof (cases "1 \<le> x")
  case True
  define n where "n = \<lfloor>x\<rfloor>"
  have n1: "1 \<le> n" using True by (simp add: n_def)
  from ilog2_bounds[OF n1] have b: "0 \<le> ilog2 n" "2 ^ nat (ilog2 n) \<le> n" "n + 1 \<le> 2 * 2 ^ nat (ilog2 n)"
    by simp_all
  have e: "expo x = ilog2 n" using True by (simp add: expo_def n_def)
  have "of_int (2 ^ nat (ilog2 n)) \<le> (of_int n :: rat)" using b(2) by (subst of_int_le_iff)
  also have "\<dots> \<le> x" by (simp add: n_def)
  finally have l: "2 powi (expo x) \<le> x" using b(1) by (simp add: e powi_nat)
  have "x < of_int (n + 1)" unfolding n_def by linarith
  also have "\<dots> \<le> of_int (2 * 2 ^ nat (ilog2 n))" using b(3) by (subst of_int_le_iff)
  also have "\<dots> = 2 powi (expo x + 1)" using b(1) by (simp add: e powi_nat nat_add_distrib)
  finally show ?thesis using l by simp
next
  case False
  define c where "c = \<lceil>1 / x\<rceil>"
  have y: "1 < 1 / x" using False assms by simp
  then have c2: "1 \<le> c - 1" unfolding c_def by linarith
  define j where "j = ilog2 (c - 1)"
  from ilog2_bounds[OF c2] have b: "0 \<le> j" "2 ^ nat j \<le> c - 1" "c \<le> 2 * 2 ^ nat j"
    by (simp_all add: j_def)
  have e: "expo x = - (j + 1)" using False by (simp add: expo_def c_def j_def)
  have "1 / x \<le> of_int c" unfolding c_def by linarith
  also have "\<dots> \<le> of_int (2 * 2 ^ nat j)" using b(3) by (subst of_int_le_iff)
  also have "\<dots> = 2 powi (j + 1)" using b(1) by (simp add: powi_nat nat_add_distrib)
  finally have "1 / x \<le> 2 powi (j + 1)" .
  then have "1 \<le> 2 powi (j + 1) * x" using assms by (simp add: field_simps)
  then have l: "2 powi (expo x) \<le> x"
    unfolding e power_int_minus by (simp add: field_simps)
  have "(2::rat) powi j = of_int (2 ^ nat j)" using b(1) by (simp add: powi_nat)
  also have "\<dots> \<le> of_int (c - 1)" using b(2) by (subst of_int_le_iff)
  also have "\<dots> < 1 / x" unfolding c_def by linarith
  finally have "2 powi j < 1 / x" .
  then have "x * 2 powi j < 1" using assms by (simp add: field_simps)
  then have u: "x < 2 powi (expo x + 1)"
    unfolding e by (simp add: power_int_minus field_simps)
  from l u show ?thesis by simp
qed

lemma expo_unique:
  assumes "0 < x" "2 powi e \<le> x" "x < 2 powi (e + 1)"
  shows "expo x = e"
proof (rule ccontr)
  assume ne: "expo x \<noteq> e"
  from expo_bounds[OF assms(1)] have b: "2 powi (expo x) \<le> x" "x < 2 powi (expo x + 1)" by simp_all
  show False
  proof (cases "expo x < e")
    case True
    then have "(2::rat) powi (expo x + 1) \<le> 2 powi e"
      by (intro power_int_increasing) simp_all
    with b(2) assms(2) show False by simp
  next
    case False
    with ne have "e + 1 \<le> expo x" by simp
    then have "(2::rat) powi (e + 1) \<le> 2 powi (expo x)"
      by (intro power_int_increasing) simp_all
    with b(1) assms(3) show False by simp
  qed
qed

lemma round_half_even_unique:
  assumes "of_int m - 1 / 2 < x" "x < of_int m + 1 / 2"
  shows "round_half_even x = m"
proof (cases "of_int m \<le> x")
  case True
  then have f: "\<lfloor>x\<rfloor> = m" using assms by (intro floor_unique) simp_all
  show ?thesis using assms by (simp add: round_half_even_def f Let_def)
next
  case False
  then have f: "\<lfloor>x\<rfloor> = m - 1" using assms by (intro floor_unique) simp_all
  show ?thesis using assms False by (simp add: round_half_even_def f Let_def)
qed

lemma round_half_even_tie:
  assumes "x = of_int k + 1 / 2"
  shows "round_half_even x = (if even k then k else k + 1)"
proof -
  have f: "\<lfloor>x\<rfloor> = k" unfolding assms by (intro floor_unique) simp_all
  show ?thesis by (simp add: round_half_even_def f Let_def) (simp add: assms)
qed

lemma round_half_even_bounds:
  "x - 1 / 2 \<le> of_int (round_half_even x) \<and> of_int (round_half_even x) \<le> x + 1 / 2"
proof -
  define n where "n = \<lfloor>x\<rfloor>"
  have f: "of_int n \<le> x" "x < of_int n + 1" unfolding n_def by linarith+
  have r: "round_half_even x =
    (if x - of_int n < 1 / 2 then n else if 1 / 2 < x - of_int n then n + 1
     else if even n then n else n + 1)"
    by (simp add: round_half_even_def Let_def n_def)
  show ?thesis unfolding r using f by auto
qed

lemma fl_round_normal:
  assumes "0 < x" "2 powi e \<le> x" "x < 2 powi (e + 1)" "- 1022 \<le> e" "e \<le> 1022"
  shows "fl_round x = Finite (of_int (round_half_even (x / 2 powi (e - 52))) * 2 powi (e - 52))"
proof -
  define m where "m = round_half_even (x / 2 powi (e - 52))"
  have ex: "expo x = e" using assms(1-3) by (simp add: expo_unique)
  have q: "max (e - 52) (- 1074) = e - 52" using assms(4) by simp
  have pos: "(0::rat) < 2 powi (e - 52)" by simp
  from round_half_even_bounds[of "x / 2 powi (e - 52)"]
  have b: "x / 2 powi (e - 52) - 1 / 2 \<le> of_int m" "of_int m \<le> x / 2 powi (e - 52) + 1 / 2"
    by (simp_all add: m_def)
  have "x / 2 powi (e - 52) < 2 powi (e + 1) / 2 powi (e - 52)"
    using assms(3) pos by (simp add: divide_strict_right_mono)
  also have "\<dots> = 2 powi 53" by (simp add: power_int_diff[symmetric])
  finally have "of_int m < (2::rat) powi 53 + 1 / 2" using b(2) by simp
  then have "of_int m < (of_int (2 ^ 53) :: rat) + 1/2" by simp
  then have "(of_int m :: rat) < of_int (2 ^ 53 + 1)" by simp
  then have "m < 2 ^ 53 + 1" by (subst (asm) of_int_less_iff)
  then have mle: "(of_int m :: rat) \<le> 2 powi 53" by simp
  have "2 powi e / 2 powi (e - 52) \<le> x / 2 powi (e - 52)"
    using assms(2) pos by (simp add: divide_right_mono)
  moreover have "2 powi e / 2 powi (e - 52) = (2::rat) powi 52" by (simp add: power_int_diff[symmetric])
  ultimately have "(2::rat) powi 52 - 1 / 2 \<le> of_int m" using b(1) by simp
  then have "(of_int (2 ^ 52) :: rat) - 1 / 2 \<le> of_int m" by simp
  then have "(of_int (2 ^ 52 - 1) :: rat) < of_int m" by simp
  then have "2 ^ 52 - 1 < m" by (subst (asm) of_int_less_iff)
  then have m0: "m \<noteq> 0" by simp
  have "of_int m * 2 powi (e - 52) \<le> 2 powi 53 * (2::rat) powi (e - 52)"
    using mle pos by (simp add: mult_right_mono)
  also have "\<dots> = 2 powi (e + 1)"
    using power_int_add[of "2::rat" 53 "e - 52"] by (simp add: add.commute)
  also have "\<dots> < 2 powi 1024" using assms(5) by (intro power_int_strict_increasing) simp_all
  finally have nov: "\<not> 2 powi 1024 \<le> of_int m * (2::rat) powi (e - 52)" by simp
  show ?thesis
    using assms(1) nov[unfolded m_def] m0[unfolded m_def]
    by (simp add: fl_round_def ex q Let_def)
qed

lemma fl_round_eval:
  assumes "0 < x" "2 powi e \<le> x" "x < 2 powi (e + 1)" "- 1022 \<le> e" "e \<le> 1022"
    and "of_int m - 1 / 2 < x / 2 powi (e - 52)" "x / 2 powi (e - 52) < of_int m + 1 / 2"
  shows "fl_round x = Finite (of_int m * 2 powi (e - 52))"
  using fl_round_normal[OF assms(1-5)] round_half_even_unique[OF assms(6,7)] by simp

lemma fl_round_eval_tie:
  assumes "0 < x" "2 powi e \<le> x" "x < 2 powi (e + 1)" "- 1022 \<le> e" "e \<le> 1022"
    and "x / 2 powi (e - 52) = of_int k + 1 / 2"
  shows "fl_round x = Finite (of_int (if even k then k else k + 1) * 2 powi (e - 52))"
  using fl_round_normal[OF assms(1-5)] round_half_even_tie[OF assms(6)] by simp

lemma lit_0_7_eq: "lit_0_7 = Finite (3152519739159347 / 4503599627370496)"
  unfolding lit_0_7_def using fl_round_eval[of "7/10" "-1" 6305039478318694] by simp

lemma lit_1_2_eq: "lit_1_2 = Finite (5404319552844595 / 4503599627370496)"
  unfolding lit_1_2_def using fl_round_eval[of "12/10" 0 5404319552844595] by simp

lemma dead_stock_10: "fmul (Finite 10) lit_0_7 = Finite 7"
  unfolding lit_0_7_eq fmul_def
  using fl_round_eval_tie[of "10 * (3152519739159347 / 4503599627370496)" 2 7881299347898367]
  by simp

lemma floor_9: "fmul (Finite 9) lit_1_2 = Finite (6079859496950169 / 562949953421312)"
  unfolding lit_1_2_eq fmul_def
  using fl_round_eval[of "9 * (5404319552844595 / 4503599627370496)" 3 6079859496950169]
  by simp

lemma round_floor_9:
  "py_round2 (Finite (6079859496950169 / 562949953421312)) = Finite (3039929748475085 / 281474976710656)"
  unfolding py_round2_def
  using round_half_even_unique[of 1080 "\<bar>6079859496950169 / 562949953421312\<bar> * 100"]
    fl_round_eval[of "1080 / 100" 3 6079859496950170]
  by simp

lemma format_10_80:
  "format_2f (Finite (3039929748475085 / 281474976710656)) = ''10.80''"
  unfolding format_2f_def
  using round_half_even_unique[of 1080 "\<bar>3039929748475085 / 281474976710656\<bar> * 100"]
  by (simp add: show_nat.simps)

lemma format_10_80': 
  "format_2f (Finite (6079859496950169 / 562949953421312)) = ''10.80''"
  unfolding format_2f_def
  using round_half_even_unique[of 1080 "\<bar>6079859496950169 / 562949953421312\<bar> * 100"]
  by (simp add: show_nat.simps)

lemma parse_10: "parse_float ''10.00'' = Some (Finite 10)"
  using fl_round_eval[of 10 3 5629499534213120]
  by (simp add: parse_float_def strip_def is_space_def split_sign_def to_lower_def digitpart_def
       is_digit_def digits_val_def digit_val_def parse_exponent_def Let_def)

lemma parse_300: "parse_int ''300'' = Some 300"
  by (simp add: parse_int_def strip_def is_space_def split_sign_def digitpart_def
       is_digit_def digits_val_def digit_val_def Let_def)

subsection \<open>Sequencing and lookups\<close>

lemma bind_err_Inl [simp]: "bind_err (Inl e) f = Inl e"
  by (simp add: bind_err_def)

lemma bind_err_Inr [simp]: "bind_err (Inr v) f = f v"
  by (simp add: bind_err_def)

lemma bind_err_eq_Inr: "bind_err m f = Inr r \<longleftrightarrow> (\<exists>v. m = Inr v \<and> f v = Inr r)"
  by (cases m) simp_all

lemma getitem_eq_Inr: "getitem d k = Inr v \<longleftrightarrow> d k = Some v"
  by (simp add: getitem_def split: option.splits)

subsection \<open>Rule order and tier selection\<close>

lemma reachable_sorted: "reachable eng \<Longrightarrow> sorted (map priority (rules eng))"
proof (induction rule: reachable.induct)
  case reachable_new
  show ?case by (simp add: new_engine_def)
next
  case (reachable_add eng rule)
  show ?case by (simp add: add_rule_def)
next
  case (reachable_remove eng c)
  then show ?case by (simp add: remove_rule_def sorted_filter)
qed

lemma scan_rules_first_match:
  assumes "scan_rules rs product sales_data = Inr res"
  shows "case find (\<lambda>r. should_apply r product sales_data = Inr True)
                (filter (\<lambda>r. \<not> is_MinimumProfitRule r) rs) of
           Some r \<Rightarrow> \<exists>p. res = Some p \<and> apply_rule r product sales_data = Inr p
         | None \<Rightarrow> res = None"
  using assms
proof (induction rs)
  case Nil
  then show ?case by simp
next
  case (Cons rule rest)
  show ?case
  proof (cases "is_MinimumProfitRule rule")
    case True
    with Cons show ?thesis by simp
  next
    case False
    from Cons.prems False obtain b where
      b: "should_apply rule product sales_data = Inr b" and
      k: "(if b then bind_err (apply_rule rule product sales_data) (\<lambda>p. Inr (Some p))
           else scan_rules rest product sales_data) = Inr res"
      by (auto simp: bind_err_eq_Inr)
    show ?thesis
    proof (cases b)
      case True
      with k obtain p where "apply_rule rule product sales_data = Inr p" "res = Some p"
        by (auto simp: bind_err_eq_Inr)
      with False b True show ?thesis by simp
    next
      case nb: False
      with k have "scan_rules rest product sales_data = Inr res" by simp
      from Cons.IH[OF this] False b nb show ?thesis by simp
    qed
  qed
qed

lemma standard_rules: "rules standard_engine =
  [LowStockHighDemandRule 1, DeadStockRule 2, OverstockedInventoryRule 3, MinimumProfitRule 4]"
  by (simp add: standard_engine_def add_rule_def new_engine_def)

lemma example_phase1:
  "phase1 standard_engine example_product example_sales = Inr (fmul (Finite 10) lit_0_7)"
  by (simp add: phase1_def standard_rules example_product_def example_sales_def getitem_def
      py_int_def py_float_def quantity_sold_def dict_get_def)

text \<open>
  C1. In an engine built with \<open>add_rule\<close> and \<open>remove_rule\<close> the rules stand in
  ascending priority order, and whenever phase 1 of \<open>process_product\<close> returns a price,
  that price is the transform of the first rule of this order, the margin rule left
  out, whose predicate is true; no later tier rule contributes. When no tier rule's
  predicate is true, the price is \<open>float(product['current_price'])\<close>.
\<close>

theorem first_matching_tier_rule_wins:
  assumes "reachable eng" and "phase1 eng product sales_data = Inr p"
  shows "sorted (map priority (rules eng)) \<and>
         (case find (\<lambda>r. should_apply r product sales_data = Inr True)
                (filter (\<lambda>r. \<not> is_MinimumProfitRule r) (rules eng)) of
            Some r \<Rightarrow> apply_rule r product sales_data = Inr p
          | None \<Rightarrow> \<exists>v. product ''current_price'' = Some v \<and> py_float v = Inr p)"
proof -
  from assms(2) obtain res where
    s: "scan_rules (rules eng) product sales_data = Inr res" and
    k: "(case res of Some p \<Rightarrow> Inr p
         | None \<Rightarrow> bind_err (getitem product ''current_price'') py_float) = Inr p"
    by (auto simp: phase1_def bind_err_eq_Inr)
  from scan_rules_first_match[OF s] k have
    "case find (\<lambda>r. should_apply r product sales_data = Inr True)
                (filter (\<lambda>r. \<not> is_MinimumProfitRule r) (rules eng)) of
            Some r \<Rightarrow> apply_rule r product sales_data = Inr p
          | None \<Rightarrow> \<exists>v. product ''current_price'' = Some v \<and> py_float v = Inr p"
    by (auto simp: bind_err_eq_Inr getitem_eq_Inr split: option.splits)
  with reachable_sorted[OF assms(1)] show ?thesis by simp
qed

text \<open>
  The sample product satisfies the dead-stock and the overstock predicate at once; only
  the dead-stock transform (priority 2) shows before the floor.
\<close>

theorem first_matching_tier_rule_wins_witness:
  "reachable standard_engine \<and>
   phase1 standard_engine example_product example_sales = Inr (fmul (Finite 10) lit_0_7) \<and>
   should_apply (DeadStockRule 2) example_product example_sales = Inr True \<and>
   should_apply (OverstockedInventoryRule 3) example_product example_sales = Inr True \<and>
   apply_rule (DeadStockRule 2) example_product example_sales = Inr (fmul (Finite 10) lit_0_7) \<and>
   sorted (map priority (rules standard_engine))"
proof -
  have r: "reachable standard_engine"
    unfolding standard_engine_def by (intro reachable.intros)
  have s: "should_apply (DeadStockRule 2) example_product example_sales = Inr True"
      "should_apply (OverstockedInventoryRule 3) example_product example_sales = Inr True"
      "should_apply (LowStockHighDemandRule 1) example_product example_sales = Inr False"
    by (simp_all add: example_product_def example_sales_def getitem_def
      py_int_def quantity_sold_def dict_get_def)
  from first_matching_tier_rule_wins[OF r example_phase1] r example_phase1 s
  show ?thesis by (simp add: standard_rules)
qed

subsection \<open>The margin rule\<close>

lemma py_max_not_below: "\<not> fless (py_max a b) a"
  by (auto simp: py_max_def fless_def)

lemma py_max_above: "a \<noteq> NaN \<Longrightarrow> fle a (py_max a b)"
  by (auto simp: py_max_def fless_def fle_def)

lemma apply_margin_Inr:
  assumes "apply_rule (MinimumProfitRule pr) (result(''new_price'' \<mapsto> PFloat p)) sales_data = Inr r"
  shows "\<exists>c cost. result ''cost_price'' = Some c \<and> py_float c = Inr cost \<and>
           r = py_max p (fmul cost lit_1_2)"
  using assms
  by (auto simp: bind_err_eq_Inr getitem_eq_Inr dict_get_def py_float_def)

text \<open>
  C5. Phase 2 never lowers the phase-1 price \<open>p\<close>: its result is never below \<open>p\<close>, it
  is at least \<open>p\<close> when \<open>p\<close> is a number, and with a margin rule installed it is
  \<open>max(p, cost_price * 1.2)\<close>.
\<close>

theorem margin_rule_never_lowers:
  assumes "phase2 eng (result(''new_price'' \<mapsto> PFloat p)) sales_data p = Inr r"
  shows "\<not> fless r p \<and> (p \<noteq> NaN \<longrightarrow> fle p r) \<and>
         ((\<exists>rule \<in> set (rules eng). is_MinimumProfitRule rule) \<longrightarrow>
            (\<exists>c cost. result ''cost_price'' = Some c \<and> py_float c = Inr cost \<and>
               r = py_max p (fmul cost lit_1_2)))"
proof (cases "filter is_MinimumProfitRule (rules eng)")
  case Nil
  with assms have "r = p" by (simp add: phase2_def)
  moreover from Nil have "\<not> (\<exists>rule \<in> set (rules eng). is_MinimumProfitRule rule)"
    by (simp add: filter_empty_conv)
  ultimately show ?thesis by (auto simp: fless_def fle_def)
next
  case (Cons m ms)
  then have "m \<in> set (filter is_MinimumProfitRule (rules eng))" by simp
  then have "is_MinimumProfitRule m" by simp
  then obtain pr where m: "m = MinimumProfitRule pr" by (cases m) simp_all
  from assms Cons m
  have "apply_rule (MinimumProfitRule pr) (result(''new_price'' \<mapsto> PFloat p)) sales_data = Inr r"
    by (simp add: phase2_def)
  from apply_margin_Inr[OF this] obtain c cost where
    c: "result ''cost_price'' = Some c" "py_float c = Inr cost" "r = py_max p (fmul cost lit_1_2)"
    by blast
  then show ?thesis using py_max_not_below py_max_above by auto
qed

theorem margin_rule_never_lowers_witness:
  "phase2 standard_engine (example_product(''new_price'' \<mapsto> PFloat (Finite 7))) example_sales (Finite 7)
     = Inr (py_max (Finite 7) (fmul (Finite 9) lit_1_2)) \<and>
   \<not> fless (py_max (Finite 7) (fmul (Finite 9) lit_1_2)) (Finite 7) \<and>
   fle (Finite 7) (py_max (Finite 7) (fmul (Finite 9) lit_1_2))"
proof -
  have p: "phase2 standard_engine (example_product(''new_price'' \<mapsto> PFloat (Finite 7)))
      example_sales (Finite 7) = Inr (py_max (Finite 7) (fmul (Finite 9) lit_1_2))"
    by (simp add: phase2_def standard_rules example_product_def getitem_def py_float_def
        dict_get_def)
  from margin_rule_never_lowers[OF p] p show ?thesis by simp
qed

subsection \<open>The old price\<close>

text \<open>
  C8. The \<open>old_price\<close> of an emitted decision is \<open>float(product['current_price'])\<close>, and
  apart from \<open>old_price\<close> and \<open>new_price\<close> the decision holds the product's own fields
  unchanged: the rules and the rounding only ever write \<open>new_price\<close>.
\<close>

theorem old_price_is_current_price:
  assumes "process_product eng product sales_data = Inr result"
  shows "\<exists>v old. product ''current_price'' = Some v \<and> py_float v = Inr old \<and>
           result ''old_price'' = Some (PFloat old) \<and>
           (\<forall>k. k \<noteq> ''old_price'' \<and> k \<noteq> ''new_price'' \<longrightarrow> result k = product k)"
  using assms
  by (auto simp: process_product_def bind_err_eq_Inr getitem_eq_Inr Let_def)

lemma example_process:
  "\<exists>res. process_product standard_engine example_product example_sales = Inr res"
  by (simp add: process_product_def example_phase1 phase2_def standard_rules Let_def)
    (simp add: example_product_def getitem_def py_float_def dict_get_def)

theorem old_price_is_current_price_witness:
  "\<exists>res. process_product standard_engine example_product example_sales = Inr res \<and>
     res ''old_price'' = Some (PFloat (Finite 10)) \<and> res ''sku'' = Some (PStr ''A1'')"
proof -
  from example_process obtain res where
    r: "process_product standard_engine example_product example_sales = Inr res" by blast
  from old_price_is_current_price[OF r] have
    "res ''old_price'' = Some (PFloat (Finite 10))" "res ''sku'' = example_product ''sku''"
    by (auto simp: example_product_def py_float_def)
  with r show ?thesis by (auto simp: example_product_def)
qed

subsection \<open>The dead-stock example\<close>

lemmas parse_simps = parse_float_def parse_int_def strip_def is_space_def split_sign_def
  to_lower_def digitpart_def is_digit_def digits_val_def digit_val_def parse_exponent_def Let_def

lemma parse_9: "parse_float ''9.00'' = Some (Finite 9)"
  using fl_round_eval[of 9 3 5066549580791808] by (simp add: parse_simps)

lemma parse_0: "parse_int ''0'' = Some 0"
  by (simp add: parse_simps)

lemma format_10_00: "format_2f (Finite 10) = ''10.00''"
  unfolding format_2f_def
  using round_half_even_unique[of 1000 "\<bar>10\<bar> * 100"]
  by (simp add: show_nat.simps)

lemma example_phase1_value:
  "phase1 standard_engine example_product example_sales = Inr (Finite 7)"
  by (simp add: example_phase1 dead_stock_10)

text \<open>
  C4. For the product with price 10.00, cost 9.00 and stock 300, nothing sold, and the
  standard four rules: the dead-stock rule fires and phase 1 gives 7.0; the margin rule
  computes the floor \<open>9.0 * 1.2\<close>, which in binary64 is 10.799999999999999 and
  prints as 10.80; it is above 7.0 and replaces it; the rounded \<open>new_price\<close> is the
  float 10.8, written as \<open>$10.80\<close>. The same holds when the fields are the texts
  a CSV row carries.
\<close>

theorem dead_stock_example:
  "phase1 standard_engine example_product example_sales = Inr (Finite 7) \<and>
   fmul (Finite 9) lit_1_2 = Finite (6079859496950169 / 562949953421312) \<and>
   format_2f (Finite (6079859496950169 / 562949953421312)) = ''10.80'' \<and>
   fless (Finite 7) (Finite (6079859496950169 / 562949953421312)) \<and>
   process_product standard_engine example_product example_sales =
     Inr (example_product(''old_price'' \<mapsto> PFloat (Finite 10),
            ''new_price'' \<mapsto> PFloat (Finite (3039929748475085 / 281474976710656)))) \<and>
   process_product standard_engine example_product_row example_sales_row =
     Inr (example_product_row(''old_price'' \<mapsto> PFloat (Finite 10),
            ''new_price'' \<mapsto> PFloat (Finite (3039929748475085 / 281474976710656)))) \<and>
   format_row (example_product_row(''old_price'' \<mapsto> PFloat (Finite 10),
            ''new_price'' \<mapsto> PFloat (Finite (3039929748475085 / 281474976710656)))) =
     Inr \<lparr>sku = PStr ''A1'', old_price = ''$10.00'', new_price = ''$10.80''\<rparr>"
proof -
  have a: "process_product standard_engine example_product example_sales =
     Inr (example_product(''old_price'' \<mapsto> PFloat (Finite 10),
            ''new_price'' \<mapsto> PFloat (Finite (3039929748475085 / 281474976710656))))"
    by (simp add: process_product_def example_phase1_value phase2_def standard_rules Let_def)
       (simp add: example_product_def getitem_def py_float_def dict_get_def floor_9 py_max_def
          fless_def round_floor_9)
  have p1: "phase1 standard_engine example_product_row example_sales_row = Inr (Finite 7)"
    by (simp add: phase1_def standard_rules example_product_row_def example_sales_row_def
        getitem_def py_int_def py_float_def quantity_sold_def dict_get_def parse_300 parse_0
        parse_10 dead_stock_10)
  have b: "process_product standard_engine example_product_row example_sales_row =
     Inr (example_product_row(''old_price'' \<mapsto> PFloat (Finite 10),
            ''new_price'' \<mapsto> PFloat (Finite (3039929748475085 / 281474976710656))))"
    by (simp add: process_product_def p1 phase2_def standard_rules Let_def)
       (simp add: example_product_row_def getitem_def py_float_def dict_get_def parse_10 parse_9
          floor_9 py_max_def fless_def round_floor_9)
  have c: "format_row (example_product_row(''old_price'' \<mapsto> PFloat (Finite 10),
            ''new_price'' \<mapsto> PFloat (Finite (3039929748475085 / 281474976710656)))) =
     Inr \<lparr>sku = PStr ''A1'', old_price = ''$10.00'', new_price = ''$10.80''\<rparr>"
    by (simp add: format_row_def getitem_def example_product_row_def format_price_def
        py_float_def format_10_00 format_10_80)
  show ?thesis
    using a b c example_phase1_value floor_9 format_10_80' by (simp add: fless_def)
qed

subsection \<open>The margin floor and the final rounding\<close>

lemma parse_50: "parse_int ''50'' = Some 50"
  by (simp add: parse_simps)

lemma parse_1_00: "parse_float ''1.00'' = Some (Finite 1)"
  using fl_round_eval[of 1 0 4503599627370496] by (simp add: parse_simps)

lemma parse_1_01: "parse_float ''1.01'' = Some (Finite (4548635623644201 / 4503599627370496))"
  using fl_round_eval[of "101 / 100" 0 4548635623644201] by (simp add: parse_simps)

lemma floor_1_01:
  "fmul (Finite (4548635623644201 / 4503599627370496)) lit_1_2 =
     Finite (5458362748373041 / 4503599627370496)"
  unfolding lit_1_2_eq fmul_def
  using fl_round_eval[of "4548635623644201 / 4503599627370496 * (5404319552844595 / 4503599627370496)"
      0 5458362748373041]
  by simp

lemma round_floor_1_01:
  "py_round2 (Finite (5458362748373041 / 4503599627370496)) =
     Finite (1362338887279575 / 1125899906842624)"
  unfolding py_round2_def
  using round_half_even_unique[of 121 "\<bar>5458362748373041 / 4503599627370496\<bar> * 100"]
    fl_round_eval[of "121 / 100" 0 5449355549118300]
  by simp

text \<open>
  C2. The final rounding can take \<open>new_price\<close> below the floor. With cost 1.01 and
  price 1.00 no tier rule fires, the margin rule raises the price to the floor
  \<open>1.01 * 1.2 = 1.212\<close>, and \<open>round(1.212, 2)\<close> emits 1.21, which is below the
  floor the margin rule computed and below \<open>cost_price * 1.2\<close> in exact arithmetic.
\<close>

theorem rounding_drops_below_floor:
  "process_product standard_engine thin_margin_row default_sales =
     Inr (thin_margin_row(''old_price'' \<mapsto> PFloat (Finite 1),
            ''new_price'' \<mapsto> PFloat (Finite (1362338887279575 / 1125899906842624)))) \<and>
   apply_rule (MinimumProfitRule 4) (thin_margin_row(''new_price'' \<mapsto> PFloat (Finite 1))) default_sales =
     Inr (Finite (5458362748373041 / 4503599627370496)) \<and>
   fmul (Finite (4548635623644201 / 4503599627370496)) lit_1_2 =
     Finite (5458362748373041 / 4503599627370496) \<and>
   fless (Finite (1362338887279575 / 1125899906842624))
         (Finite (5458362748373041 / 4503599627370496)) \<and>
   (1362338887279575 / 1125899906842624 :: rat) < (101 / 100) * (12 / 10)"
proof -
  have p1: "phase1 standard_engine thin_margin_row default_sales = Inr (Finite 1)"
    by (simp add: phase1_def standard_rules thin_margin_row_def default_sales_def
        getitem_def py_int_def py_float_def quantity_sold_def dict_get_def parse_50 parse_0
        parse_1_00)
  have m: "apply_rule (MinimumProfitRule 4) (thin_margin_row(''new_price'' \<mapsto> PFloat (Finite 1))) default_sales =
     Inr (Finite (5458362748373041 / 4503599627370496))"
    by (simp add: thin_margin_row_def getitem_def py_float_def dict_get_def parse_1_01 parse_1_00
          floor_1_01 py_max_def fless_def)
  have a: "process_product standard_engine thin_margin_row default_sales =
     Inr (thin_margin_row(''old_price'' \<mapsto> PFloat (Finite 1),
            ''new_price'' \<mapsto> PFloat (Finite (1362338887279575 / 1125899906842624))))"
    by (simp add: process_product_def p1 phase2_def standard_rules Let_def)
       (simp add: thin_margin_row_def getitem_def py_float_def dict_get_def parse_1_01 parse_1_00
          floor_1_01 py_max_def fless_def round_floor_1_01)
  show ?thesis using a m floor_1_01 by (simp add: fless_def)
qed

subsection \<open>Products without a sales record\<close>

lemma quantity_sold_default: "quantity_sold default_sales = Inr 0"
  by (simp add: quantity_sold_def default_sales_def dict_get_def py_int_def parse_0)

lemma should_apply_sales:
  assumes "quantity_sold s = quantity_sold s'"
  shows "should_apply rule product s = should_apply rule product s'"
  by (cases rule) (simp_all only: should_apply.simps assms)

lemma apply_rule_sales: "apply_rule rule product s = apply_rule rule product s'"
  by (cases rule) simp_all

lemma scan_rules_sales:
  assumes "quantity_sold s = quantity_sold s'"
  shows "scan_rules rs product s = scan_rules rs product s'"
proof (induction rs)
  case Nil
  show ?case by simp
next
  case (Cons rule rest)
  show ?case
    unfolding scan_rules.simps Cons.IH should_apply_sales[OF assms, of rule product]
      apply_rule_sales[of rule product s s'] ..
qed

lemma process_product_sales:
  assumes "quantity_sold s = quantity_sold s'"
  shows "process_product eng product s = process_product eng product s'"
proof -
  have 1: "phase1 eng product s = phase1 eng product s'"
    by (simp add: phase1_def scan_rules_sales[OF assms])
  have 2: "\<And>result p. phase2 eng result s p = phase2 eng result s' p"
    by (simp add: phase2_def apply_rule_sales[of _ _ s s'] split: list.splits)
  show ?thesis by (simp add: process_product_def 1 2)
qed

lemma should_apply_zero_sold:
  assumes "quantity_sold s = Inr 0" "product ''stock'' = Some v" "py_int v = Inr n"
  shows "should_apply (LowStockHighDemandRule pr) product s = Inr False"
    and "should_apply (DeadStockRule pr) product s = Inr (200 < n)"
    and "should_apply (OverstockedInventoryRule pr) product s = Inr (100 < n)"
  using assms by (simp_all add: getitem_def)

text \<open>
  C7. A product whose SKU is not a key of the sales index is evaluated against the
  default record \<open>{'quantity_sold': '0'}\<close>, whose quantity is 0: the result of
  \<open>process_product\<close> and of every predicate is the one for any sales record with
  \<open>quantity_sold = 0\<close>. With a readable stock \<open>n\<close>, the scarcity predicate is
  false, the dead-stock predicate is \<open>n > 200\<close> and the overstock predicate is
  \<open>n > 100\<close>: the quantity conditions \<open>== 0\<close> and \<open>< 20\<close> hold.
\<close>

theorem absent_sku_counts_as_zero_sold:
  assumes "sales_data k = None"
  shows "product_sales sales_data k = default_sales \<and>
         quantity_sold (product_sales sales_data k) = Inr 0 \<and>
         (\<forall>s. quantity_sold s = Inr 0 \<longrightarrow>
            process_product eng product (product_sales sales_data k) = process_product eng product s \<and>
            (\<forall>rule. should_apply rule product (product_sales sales_data k) = should_apply rule product s)) \<and>
         (\<forall>v n pr. product ''stock'' = Some v \<and> py_int v = Inr n \<longrightarrow>
            should_apply (LowStockHighDemandRule pr) product (product_sales sales_data k) = Inr False \<and>
            should_apply (DeadStockRule pr) product (product_sales sales_data k) = Inr (200 < n) \<and>
            should_apply (OverstockedInventoryRule pr) product (product_sales sales_data k) = Inr (100 < n)) \<and>
         (product ''sku'' = Some k \<longrightarrow>
            stream_rows eng sales_data [product] =
              (case process_product eng product [''quantity_sold'' \<mapsto> PInt 0] of
                 Inl e \<Rightarrow> ([], Some e) | Inr result \<Rightarrow> ([result], None)))"
proof -
  have d: "product_sales sales_data k = default_sales"
    using assms by (simp add: product_sales_def)
  have q: "quantity_sold [''quantity_sold'' \<mapsto> PInt 0] = Inr 0"
    by (simp add: quantity_sold_def dict_get_def py_int_def)
  have a: "process_product eng product default_sales = process_product eng product s"
    if "quantity_sold s = Inr 0" for s
    by (rule process_product_sales) (simp add: quantity_sold_default that)
  have b: "should_apply rule product default_sales = should_apply rule product s"
    if "quantity_sold s = Inr 0" for s rule
    by (rule should_apply_sales) (simp add: quantity_sold_default that)
  have c: "stream_rows eng sales_data [product] =
              (case process_product eng product [''quantity_sold'' \<mapsto> PInt 0] of
                 Inl e \<Rightarrow> ([], Some e) | Inr result \<Rightarrow> ([result], None))"
    if "product ''sku'' = Some k"
    using that a[OF q] by (simp add: getitem_def d split: sum.splits)
  show ?thesis
    unfolding d
  proof (intro conjI allI impI)
    show "default_sales = default_sales" ..
    show "quantity_sold default_sales = Inr 0" by (rule quantity_sold_default)
  next
    fix s assume "quantity_sold s = Inr 0"
    then show "process_product eng product default_sales = process_product eng product s"
      by (rule a)
  next
    fix s rule assume "quantity_sold s = Inr 0"
    then show "should_apply rule product default_sales = should_apply rule product s"
      by (rule b)
  next
    fix v n pr assume h: "product ''stock'' = Some v \<and> py_int v = Inr n"
    then have h1: "product ''stock'' = Some v" and h2: "py_int v = Inr n" by simp_all
    show "should_apply (LowStockHighDemandRule pr) product default_sales = Inr False"
      using h1 h2 by (simp add: getitem_def quantity_sold_default)
    show "should_apply (DeadStockRule pr) product default_sales = Inr (200 < n)"
      using h1 h2 by (simp add: getitem_def quantity_sold_default)
    show "should_apply (OverstockedInventoryRule pr) product default_sales = Inr (100 < n)"
      using h1 h2 by (simp add: getitem_def quantity_sold_default)
  next
    assume "product ''sku'' = Some k"
    then show "stream_rows eng sales_data [product] =
              (case process_product eng product [''quantity_sold'' \<mapsto> PInt 0] of
                 Inl e \<Rightarrow> ([], Some e) | Inr result \<Rightarrow> ([result], None))"
      by (rule c)
  qed
qed

theorem absent_sku_counts_as_zero_sold_witness:
  "[PStr ''A1'' \<mapsto> example_sales_row] (PStr ''B7'') = None \<and>
   thin_margin_row ''sku'' = Some (PStr ''B7'') \<and>
   quantity_sold (product_sales [PStr ''A1'' \<mapsto> example_sales_row] (PStr ''B7'')) = Inr 0 \<and>
   should_apply (DeadStockRule 2) thin_margin_row
     (product_sales [PStr ''A1'' \<mapsto> example_sales_row] (PStr ''B7'')) = Inr False \<and>
   process_product standard_engine thin_margin_row
     (product_sales [PStr ''A1'' \<mapsto> example_sales_row] (PStr ''B7'')) =
   process_product standard_engine thin_margin_row [''quantity_sold'' \<mapsto> PInt 0]"
proof -
  have n: "[PStr ''A1'' \<mapsto> example_sales_row] (PStr ''B7'') = None" by simp
  have k: "thin_margin_row ''sku'' = Some (PStr ''B7'')" by (simp add: thin_margin_row_def)
  have q: "quantity_sold [''quantity_sold'' \<mapsto> PInt 0] = Inr 0"
    by (simp add: quantity_sold_def dict_get_def py_int_def)
  have s: "thin_margin_row ''stock'' = Some (PStr ''50'') \<and> py_int (PStr ''50'') = Inr 50"
    by (simp add: thin_margin_row_def py_int_def parse_50)
  note t = absent_sku_counts_as_zero_sold[where sales_data = "[PStr ''A1'' \<mapsto> example_sales_row]"
      and k = "PStr ''B7''" and product = thin_margin_row and eng = standard_engine, OF n]
  have t2: "quantity_sold (product_sales [PStr ''A1'' \<mapsto> example_sales_row] (PStr ''B7'')) = Inr 0"
    by (rule t[THEN conjunct2, THEN conjunct1])
  have t3: "process_product standard_engine thin_margin_row
     (product_sales [PStr ''A1'' \<mapsto> example_sales_row] (PStr ''B7'')) =
   process_product standard_engine thin_margin_row [''quantity_sold'' \<mapsto> PInt 0]"
    by (rule t[THEN conjunct2, THEN conjunct2, THEN conjunct1, rule_format, OF q, THEN conjunct1])
  have t4: "should_apply (DeadStockRule 2) thin_margin_row
     (product_sales [PStr ''A1'' \<mapsto> example_sales_row] (PStr ''B7'')) = Inr (200 < (50::int))"
    by (rule t[THEN conjunct2, THEN conjunct2, THEN conjunct2, THEN conjunct1, rule_format,
          OF s, THEN conjunct2, THEN conjunct1])
  show ?thesis using n k t2 t3 t4 by simp
qed

subsection \<open>Digests\<close>

text \<open>
  C9. \<open>calculate_file_hash\<close> returns the empty string for a path with no file, and
  never raises; for a file it returns the MD5 digest of the bytes, so that equal
  contents have equal digests.
\<close>

theorem file_hash_absent_or_digest:
  "(fs path = None \<longrightarrow> calculate_file_hash lib fs path = []) \<and>
   (\<forall>buf. fs path = Some buf \<longrightarrow> calculate_file_hash lib fs path = md5_hexdigest lib buf) \<and>
   (\<forall>fs' path'. fs path \<noteq> None \<and> fs' path' = fs path \<longrightarrow>
      calculate_file_hash lib fs' path' = calculate_file_hash lib fs path)"
  by (auto simp: calculate_file_hash_def)

theorem file_hash_absent_or_digest_witness:
  "bad_first_fs ''nowhere.csv'' = None \<and>
   calculate_file_hash sample_lib bad_first_fs ''nowhere.csv'' = [] \<and>
   bad_first_fs ''sales.csv'' = Some ''one sale'' \<and>
   calculate_file_hash sample_lib bad_first_fs ''sales.csv'' = md5_hexdigest sample_lib ''one sale'' \<and>
   calculate_file_hash sample_lib bad_second_fs ''sales.csv'' =
     calculate_file_hash sample_lib bad_first_fs ''sales.csv''"
proof -
  have a: "bad_first_fs ''nowhere.csv'' = None"
    by (simp add: bad_first_fs_def)
  have b: "bad_first_fs ''sales.csv'' = Some ''one sale''"
    by (simp add: bad_first_fs_def)
  have c: "bad_first_fs ''sales.csv'' \<noteq> None \<and> bad_second_fs ''sales.csv'' = bad_first_fs ''sales.csv''"
    by (simp add: bad_first_fs_def bad_second_fs_def)
  note t = file_hash_absent_or_digest[of bad_first_fs _ sample_lib]
  have 1: "calculate_file_hash sample_lib bad_first_fs ''nowhere.csv'' = []"
    by (rule t[THEN conjunct1, rule_format, OF a])
  have 2: "calculate_file_hash sample_lib bad_first_fs ''sales.csv'' = md5_hexdigest sample_lib ''one sale''"
    by (rule t[THEN conjunct2, THEN conjunct1, rule_format, OF b])
  have 3: "calculate_file_hash sample_lib bad_second_fs ''sales.csv'' =
     calculate_file_hash sample_lib bad_first_fs ''sales.csv''"
    by (rule t[of "''sales.csv''", THEN conjunct2, THEN conjunct2, THEN spec[where x = bad_second_fs],
          THEN spec[where x = "''sales.csv''"], THEN mp, OF c])
  show ?thesis using a b 1 2 3 by simp
qed

subsection \<open>Passes and checks\<close>

lemma calculate_file_hash_other:
  "p \<noteq> out \<Longrightarrow> calculate_file_hash lib (fs(out \<mapsto> x)) p = calculate_file_hash lib fs p"
  by (simp add: calculate_file_hash_def)

lemma process_products_inputs:
  assumes "fs2 pf = fs pf" "fs2 sf = fs sf"
  shows "process_products lib fs2 pf sf eng = process_products lib fs pf sf eng"
  unfolding process_products_def load_sales_data_def assms by (rule refl)

lemma run_pass_fs:
  "fst (run_pass lib h fs) =
     fs(output_file h \<mapsto> csv_DictWriter lib (fst (write_rows (fst
        (process_products lib fs (products_file h) (sales_file h) (pricing_engine h))))))"
  by (simp add: run_pass_def write_output_def split: prod.splits)

lemma run_pass_inputs:
  assumes "fs2 (products_file h) = fs (products_file h)" "fs2 (sales_file h) = fs (sales_file h)"
  shows "fst (run_pass lib h fs2) (output_file h) = fst (run_pass lib h fs) (output_file h) \<and>
         snd (run_pass lib h fs2) = snd (run_pass lib h fs)"
  using process_products_inputs[OF assms, of lib "pricing_engine h"]
  by (simp add: run_pass_def write_output_def split: prod.splits)

lemma run_pass_twice:
  assumes "output_file h \<noteq> products_file h" "output_file h \<noteq> sales_file h"
  shows "run_pass lib h (fst (run_pass lib h fs)) = run_pass lib h fs"
proof -
  define out where "out = csv_DictWriter lib (fst (write_rows (fst
        (process_products lib fs (products_file h) (sales_file h) (pricing_engine h)))))"
  have f: "fst (run_pass lib h fs) = fs(output_file h \<mapsto> out)"
    by (simp add: run_pass_fs out_def)
  have p: "process_products lib (fs(output_file h \<mapsto> out)) (products_file h) (sales_file h) (pricing_engine h)
         = process_products lib fs (products_file h) (sales_file h) (pricing_engine h)"
    using assms by (intro process_products_inputs) auto
  show ?thesis
    unfolding f by (simp add: run_pass_def write_output_def p split: prod.splits)
qed

lemma refreshed_fields:
  "products_hash (refreshed lib h fs) = calculate_file_hash lib fs (products_file h)"
  "sales_hash (refreshed lib h fs) = calculate_file_hash lib fs (sales_file h)"
  "products_file (refreshed lib h fs) = products_file h"
  "sales_file (refreshed lib h fs) = sales_file h"
  "output_file (refreshed lib h fs) = output_file h"
  "pricing_engine (refreshed lib h fs) = pricing_engine h"
  by (simp_all add: refreshed_def)

lemma process_files_eq:
  "process_files lib (h, fs) =
     (if calculate_file_hash lib fs (products_file h) \<noteq> products_hash h \<or>
         calculate_file_hash lib fs (sales_file h) \<noteq> sales_hash h
      then (refreshed lib h fs, fst (run_pass lib (refreshed lib h fs) fs),
            Some (case snd (run_pass lib (refreshed lib h fs) fs) of
                    None \<Rightarrow> Files_changed | Some e \<Rightarrow> Error_processing e))
      else (h, fs, None))"
  by (cases h) (auto simp: process_files_def refreshed_def Let_def split: prod.splits option.splits)

lemma run_pass_refreshed: "run_pass lib (refreshed lib h fs) fs' = run_pass lib h fs'"
  by (simp add: run_pass_def refreshed_def)

lemma process_files_settled:
  assumes "process_files lib (h, fs) = (h', fs', msg)"
    and "output_file h \<noteq> products_file h" "output_file h \<noteq> sales_file h"
  shows "products_hash h' = calculate_file_hash lib fs' (products_file h) \<and>
         sales_hash h' = calculate_file_hash lib fs' (sales_file h) \<and>
         process_files lib (h', fs') = (h', fs', None)"
proof (cases "calculate_file_hash lib fs (products_file h) \<noteq> products_hash h \<or>
         calculate_file_hash lib fs (sales_file h) \<noteq> sales_hash h")
  case True
  with assms(1) have h': "h' = refreshed lib h fs" and fs': "fs' = fst (run_pass lib h fs)"
    by (simp_all add: process_files_eq run_pass_refreshed)
  have a: "calculate_file_hash lib fs' (products_file h) = calculate_file_hash lib fs (products_file h)"
      "calculate_file_hash lib fs' (sales_file h) = calculate_file_hash lib fs (sales_file h)"
    unfolding fs' run_pass_fs using assms(2,3) by (simp_all add: calculate_file_hash_other)
  have b: "products_hash h' = calculate_file_hash lib fs (products_file h)"
      "sales_hash h' = calculate_file_hash lib fs (sales_file h)"
      "products_file h' = products_file h" "sales_file h' = sales_file h"
    by (simp_all add: h' refreshed_fields)
  show ?thesis using a b by (simp add: process_files_eq[of lib h' fs'])
next
  case False
  with assms(1) have "h' = h" "fs' = fs" by (simp_all add: process_files_eq)
  with False show ?thesis by (simp add: process_files_eq)
qed

text \<open>
  C10. After a call of \<open>process_files\<close> both stored digests are the digests the files
  had at the check. A pass runs, and a line is printed, exactly when one of the two
  digests differed from the stored one, and the digests are stored whether the pass
  ends normally or with an exception. When the output file is neither of the watched
  files, the stored digests are also those of the files after the call, and the next
  check on the unchanged files runs no pass: a failed pass is not retried.
\<close>

theorem fingerprints_refreshed_by_every_check:
  assumes "process_files lib (h, fs) = (h', fs', msg)"
  shows "products_hash h' = calculate_file_hash lib fs (products_file h) \<and>
         sales_hash h' = calculate_file_hash lib fs (sales_file h) \<and>
         products_file h' = products_file h \<and> sales_file h' = sales_file h \<and>
         output_file h' = output_file h \<and> pricing_engine h' = pricing_engine h \<and>
         ((msg \<noteq> None) =
            (calculate_file_hash lib fs (products_file h) \<noteq> products_hash h \<or>
             calculate_file_hash lib fs (sales_file h) \<noteq> sales_hash h)) \<and>
         (msg = None \<longrightarrow> fs' = fs) \<and>
         (msg \<noteq> None \<longrightarrow> fs' = fst (run_pass lib h fs) \<and>
            msg = Some (case snd (run_pass lib h fs) of
                          None \<Rightarrow> Files_changed | Some e \<Rightarrow> Error_processing e)) \<and>
         (output_file h \<noteq> products_file h \<and> output_file h \<noteq> sales_file h \<longrightarrow>
            products_hash h' = calculate_file_hash lib fs' (products_file h) \<and>
            sales_hash h' = calculate_file_hash lib fs' (sales_file h) \<and>
            process_files lib (h', fs') = (h', fs', None))"
proof -
  have 1: "products_hash h' = calculate_file_hash lib fs (products_file h) \<and>
         sales_hash h' = calculate_file_hash lib fs (sales_file h) \<and>
         products_file h' = products_file h \<and> sales_file h' = sales_file h \<and>
         output_file h' = output_file h \<and> pricing_engine h' = pricing_engine h \<and>
         ((msg \<noteq> None) =
            (calculate_file_hash lib fs (products_file h) \<noteq> products_hash h \<or>
             calculate_file_hash lib fs (sales_file h) \<noteq> sales_hash h)) \<and>
         (msg = None \<longrightarrow> fs' = fs) \<and>
         (msg \<noteq> None \<longrightarrow> fs' = fst (run_pass lib h fs) \<and>
            msg = Some (case snd (run_pass lib h fs) of
                          None \<Rightarrow> Files_changed | Some e \<Rightarrow> Error_processing e))"
    using assms
    by (auto simp: process_files_eq run_pass_refreshed refreshed_fields split: if_splits)
  have 2: "output_file h \<noteq> products_file h \<and> output_file h \<noteq> sales_file h \<longrightarrow>
            products_hash h' = calculate_file_hash lib fs' (products_file h) \<and>
            sales_hash h' = calculate_file_hash lib fs' (sales_file h) \<and>
            process_files lib (h', fs') = (h', fs', None)"
    using process_files_settled[OF assms] by blast
  show ?thesis using 1 2 by (elim conjE) (intro conjI, assumption+)
qed

text \<open>
  C6. With an output file that is neither of the watched files, a second pass over the
  result of a pass gives the same file system and the same outcome; the output of a
  pass depends on the file system only through the contents of the two input files;
  and after any check the engine is the same and a second check runs no pass and
  changes nothing.
\<close>

theorem pass_is_idempotent:
  assumes "output_file h \<noteq> products_file h" "output_file h \<noteq> sales_file h"
  shows "run_pass lib h (fst (run_pass lib h fs)) = run_pass lib h fs \<and>
         (\<forall>fs2. fs2 (products_file h) = fs (products_file h) \<and>
                fs2 (sales_file h) = fs (sales_file h) \<longrightarrow>
            fst (run_pass lib h fs2) (output_file h) = fst (run_pass lib h fs) (output_file h) \<and>
            snd (run_pass lib h fs2) = snd (run_pass lib h fs)) \<and>
         (\<forall>h' fs' msg. process_files lib (h, fs) = (h', fs', msg) \<longrightarrow>
            pricing_engine h' = pricing_engine h \<and>
            process_files lib (h', fs') = (h', fs', None))"
proof (intro conjI allI impI)
  show "run_pass lib h (fst (run_pass lib h fs)) = run_pass lib h fs"
    by (rule run_pass_twice[OF assms])
next
  fix fs2
  assume a: "fs2 (products_file h) = fs (products_file h) \<and> fs2 (sales_file h) = fs (sales_file h)"
  then have a1: "fs2 (products_file h) = fs (products_file h)"
    and a2: "fs2 (sales_file h) = fs (sales_file h)" by simp_all
  from run_pass_inputs[of fs2 h fs lib, OF a1 a2]
  show "fst (run_pass lib h fs2) (output_file h) = fst (run_pass lib h fs) (output_file h)"
    and "snd (run_pass lib h fs2) = snd (run_pass lib h fs)" by simp_all
next
  fix h' fs' msg
  assume p: "process_files lib (h, fs) = (h', fs', msg)"
  then show "pricing_engine h' = pricing_engine h"
    by (auto simp: process_files_eq refreshed_fields split: if_splits)
  from process_files_settled[OF p assms]
  show "process_files lib (h', fs') = (h', fs', None)" by simp
qed

subsection \<open>Sample runs\<close>

lemma parse_5: "parse_float ''5.00'' = Some (Finite 5)"
  using fl_round_eval[of 5 2 5629499534213120] by (simp add: parse_simps)

lemma parse_abc: "parse_int ''abc'' = None"
  by (simp add: parse_simps)

lemma bad_row_fails: "process_product standard_engine bad_stock_row s = Inl ValueError"
  by (simp add: process_product_def phase1_def standard_rules bad_stock_row_def getitem_def
      py_float_def py_int_def parse_5 parse_abc)

lemma example_row_decision:
  "process_product standard_engine example_product_row example_sales_row =
     Inr (example_product_row(''old_price'' \<mapsto> PFloat (Finite 10),
            ''new_price'' \<mapsto> PFloat (Finite (3039929748475085 / 281474976710656))))"
proof -
  have p1: "phase1 standard_engine example_product_row example_sales_row = Inr (Finite 7)"
    by (simp add: phase1_def standard_rules example_product_row_def example_sales_row_def
        getitem_def py_int_def py_float_def quantity_sold_def dict_get_def parse_300 parse_0
        parse_10 dead_stock_10)
  show ?thesis
    by (simp add: process_product_def p1 phase2_def standard_rules Let_def)
       (simp add: example_product_row_def getitem_def py_float_def dict_get_def parse_10 parse_9
          floor_9 py_max_def fless_def round_floor_9)
qed

lemma example_row_formatted:
  "format_row (example_product_row(''old_price'' \<mapsto> PFloat (Finite 10),
            ''new_price'' \<mapsto> PFloat (Finite (3039929748475085 / 281474976710656)))) =
     Inr \<lparr>sku = PStr ''A1'', old_price = ''$10.00'', new_price = ''$10.80''\<rparr>"
  by (simp add: format_row_def getitem_def example_product_row_def format_price_def
        py_float_def format_10_00 format_10_80)

lemma sample_sales_index:
  "index_rows [example_sales_row] Map.empty = Inr [PStr ''A1'' \<mapsto> example_sales_row]"
  by (simp add: getitem_def example_sales_row_def)

lemma sample_product_sales:
  "product_sales [PStr ''A1'' \<mapsto> example_sales_row] (PStr ''A1'') = example_sales_row"
  "product_sales [PStr ''A1'' \<mapsto> example_sales_row] (PStr ''C3'') = default_sales"
  by (simp_all add: product_sales_def)

lemma bad_first_stream:
  "stream_rows standard_engine [PStr ''A1'' \<mapsto> example_sales_row]
     [bad_stock_row, example_product_row] = ([], Some ValueError)"
proof -
  have "getitem bad_stock_row ''sku'' = Inr (PStr ''C3'')"
    by (simp add: getitem_def bad_stock_row_def)
  then show ?thesis by (simp add: bad_row_fails)
qed

lemma bad_second_stream:
  "stream_rows standard_engine [PStr ''A1'' \<mapsto> example_sales_row]
     [example_product_row, bad_stock_row, thin_margin_row] =
   ([example_product_row(''old_price'' \<mapsto> PFloat (Finite 10),
            ''new_price'' \<mapsto> PFloat (Finite (3039929748475085 / 281474976710656)))],
    Some ValueError)"
proof -
  have "getitem bad_stock_row ''sku'' = Inr (PStr ''C3'')"
    by (simp add: getitem_def bad_stock_row_def)
  moreover have "getitem example_product_row ''sku'' = Inr (PStr ''A1'')"
    by (simp add: getitem_def example_product_row_def)
  ultimately show ?thesis
    by (simp add: bad_row_fails sample_product_sales example_row_decision)
qed

lemma sample_reader:
  "csv_DictReader sample_lib ''one sale'' = [example_sales_row]"
  "csv_DictReader sample_lib ''bad row first'' = [bad_stock_row, example_product_row]"
  "csv_DictReader sample_lib ''bad row second'' = [example_product_row, bad_stock_row, thin_margin_row]"
  by (simp_all add: sample_lib_def)

lemma sample_load:
  "load_sales_data sample_lib bad_first_fs ''sales.csv'' = Inr [PStr ''A1'' \<mapsto> example_sales_row]"
  "load_sales_data sample_lib bad_second_fs ''sales.csv'' = Inr [PStr ''A1'' \<mapsto> example_sales_row]"
  by (simp_all add: load_sales_data_def bad_first_fs_def bad_second_fs_def sample_reader
      sample_sales_index del: index_rows.simps)

lemma bad_first_products:
  "process_products sample_lib bad_first_fs ''products.csv'' ''sales.csv'' standard_engine =
     ([], Some ValueError)"
  by (simp add: process_products_def sample_load)
     (simp add: bad_first_fs_def sample_reader bad_first_stream del: stream_rows.simps)

lemma bad_second_products:
  "process_products sample_lib bad_second_fs ''products.csv'' ''sales.csv'' standard_engine =
     ([example_product_row(''old_price'' \<mapsto> PFloat (Finite 10),
            ''new_price'' \<mapsto> PFloat (Finite (3039929748475085 / 281474976710656)))],
      Some ValueError)"
  by (simp add: process_products_def sample_load)
     (simp add: bad_second_fs_def sample_reader bad_second_stream del: stream_rows.simps)

lemma bad_first_pass:
  "run_pass sample_lib sample_handler bad_first_fs =
     (bad_first_fs(''updated_prices.csv'' \<mapsto> []), Some ValueError)"
  by (simp add: run_pass_def sample_handler_def bad_first_products write_output_def)
     (simp add: sample_lib_def)

lemma bad_second_pass:
  "run_pass sample_lib sample_handler bad_second_fs =
     (bad_second_fs(''updated_prices.csv'' \<mapsto> ''$10.00 $10.80; ''), Some ValueError)"
  by (simp add: run_pass_def sample_handler_def bad_second_products write_output_def
      example_row_formatted)
     (simp add: sample_lib_def)

subsection \<open>A malformed row\<close>

lemma padded_stock_converts:
  "py_int (PStr [CHR ''5'', CHR ''0'', CHR 0xA0]) = Inr 50"
  "py_int (PStr [CHR 0x85, CHR ''5'', CHR ''0'']) = Inr 50"
  by (simp_all add: py_int_def parse_simps)

lemma data_error_iff:
  "data_error e \<longleftrightarrow> (\<exists>k. e = KeyError k) \<or> e = ValueError \<or> e = TypeError \<or> e = OverflowError"
  by (cases e) (simp_all add: data_error_def)

lemma bind_err_eq_Inl:
  "bind_err m f = Inl e \<longleftrightarrow> m = Inl e \<or> (\<exists>v. m = Inr v \<and> f v = Inl e)"
  by (cases m) simp_all

lemma getitem_error: "getitem d k = Inl e \<Longrightarrow> data_error e"
  by (auto simp: getitem_def data_error_def split: option.splits)

lemma py_int_error: "py_int v = Inl e \<Longrightarrow> data_error e"
  by (auto simp: py_int_def data_error_def split: pyval.splits option.splits pyfloat.splits)

lemma py_float_error: "py_float v = Inl e \<Longrightarrow> data_error e"
  by (auto simp: py_float_def data_error_def Let_def split: pyval.splits option.splits if_splits)

lemma quantity_sold_error: "quantity_sold s = Inl e \<Longrightarrow> data_error e"
  by (simp add: quantity_sold_def py_int_error)

lemma should_apply_error: "should_apply rule product s = Inl e \<Longrightarrow> data_error e"
  by (cases rule)
     (auto simp: bind_err_eq_Inl split: if_splits
        dest: getitem_error py_int_error quantity_sold_error)

lemma apply_rule_error: "apply_rule rule product s = Inl e \<Longrightarrow> data_error e"
  by (cases rule)
     (auto simp: bind_err_eq_Inl Let_def dest: getitem_error py_float_error)

lemma scan_rules_error: "scan_rules rs product s = Inl e \<Longrightarrow> data_error e"
proof (induction rs)
  case Nil
  then show ?case by simp
next
  case (Cons rule rest)
  then show ?case
    by (auto simp: bind_err_eq_Inl split: if_splits dest: should_apply_error apply_rule_error)
qed

lemma phase1_error: "phase1 eng product s = Inl e \<Longrightarrow> data_error e"
  by (auto simp: phase1_def bind_err_eq_Inl split: option.splits
        dest: scan_rules_error getitem_error py_float_error)

lemma phase2_error: "phase2 eng result s p = Inl e \<Longrightarrow> data_error e"
  by (auto simp: phase2_def split: list.splits dest: apply_rule_error)

lemma process_product_error: "process_product eng product s = Inl e \<Longrightarrow> data_error e"
  by (auto simp: process_product_def bind_err_eq_Inl Let_def
        dest: getitem_error py_float_error phase1_error phase2_error)

lemma row_error:
  assumes "bind_err (getitem p ''sku'') (\<lambda>k. process_product eng p (product_sales sales_data k)) = Inl e"
  shows "data_error e"
  using assms by (auto simp: bind_err_eq_Inl dest: getitem_error process_product_error)

lemma standard_needs_fields:
  assumes "process_product standard_engine product s = Inr r"
  shows "\<not> malformed product"
proof -
  from assms obtain v old p1 p2 where
    cp: "product ''current_price'' = Some v" "py_float v = Inr old" and
    ph1: "phase1 standard_engine product s = Inr p1" and
    ph2: "phase2 standard_engine
            (product(''old_price'' \<mapsto> PFloat old, ''new_price'' \<mapsto> PFloat p1)) s p1 = Inr p2"
    by (auto simp: process_product_def bind_err_eq_Inr getitem_eq_Inr Let_def)
  from ph1 obtain b where "should_apply (LowStockHighDemandRule 1) product s = Inr b"
    by (auto simp: phase1_def standard_rules bind_err_eq_Inr)
  then obtain sv n where st: "product ''stock'' = Some sv" "py_int sv = Inr n"
    by (auto simp: bind_err_eq_Inr getitem_eq_Inr)
  from ph2 have "apply_rule (MinimumProfitRule 4)
     (product(''old_price'' \<mapsto> PFloat old, ''new_price'' \<mapsto> PFloat p1)) s = Inr p2"
    by (simp add: phase2_def standard_rules)
  then obtain cv c where co: "product ''cost_price'' = Some cv" "py_float cv = Inr c"
    by (auto simp: bind_err_eq_Inr getitem_eq_Inr)
  show ?thesis using cp st co by (simp add: malformed_def is_ok_def getitem_def)
qed

lemma malformed_row_fails:
  assumes "malformed bad"
  shows "\<exists>e. bind_err (getitem bad ''sku'') (\<lambda>k.
               process_product standard_engine bad (product_sales sales_data k)) = Inl e"
proof (cases "bind_err (getitem bad ''sku'') (\<lambda>k.
               process_product standard_engine bad (product_sales sales_data k))")
  case (Inl e)
  then show ?thesis by blast
next
  case (Inr r)
  then obtain k where "process_product standard_engine bad (product_sales sales_data k) = Inr r"
    by (auto simp: bind_err_eq_Inr)
  from standard_needs_fields[OF this] assms show ?thesis by simp
qed

lemma stream_rows_prefix:
  assumes "stream_rows eng sales_data pre = (results, None)"
    and "bind_err (getitem bad ''sku'') (\<lambda>k.
               process_product eng bad (product_sales sales_data k)) = Inl e"
  shows "stream_rows eng sales_data (pre @ bad # post) = (results, Some e)"
  using assms(1)
proof (induction pre arbitrary: results)
  case Nil
  then show ?case using assms(2) by simp
next
  case (Cons p pre)
  from Cons.prems obtain r rs where
    r: "bind_err (getitem p ''sku'') (\<lambda>k. process_product eng p (product_sales sales_data k)) = Inr r"
    and rs: "stream_rows eng sales_data pre = (rs, None)" and res: "results = r # rs"
    by (auto split: sum.splits prod.splits)
  from Cons.IH[OF rs] r res show ?case by simp
qed

lemma format_price_float: "format_price (PFloat a) = Inr (''$'' @ format_2f a)"
  by (simp add: format_price_def py_float_def)

lemma format_row_decision:
  assumes "bind_err (getitem p ''sku'') (\<lambda>k. process_product eng p (product_sales sales_data k)) = Inr r"
  shows "\<exists>row. format_row r = Inr row"
proof -
  from assms obtain k where k: "p ''sku'' = Some k"
    and pr: "process_product eng p (product_sales sales_data k) = Inr r"
    by (auto simp: bind_err_eq_Inr getitem_eq_Inr)
  from pr obtain old new where "r = p(''old_price'' \<mapsto> PFloat old, ''new_price'' \<mapsto> PFloat new)"
    by (auto simp: process_product_def bind_err_eq_Inr Let_def)
  with k show ?thesis by (simp add: format_row_def getitem_def format_price_float)
qed

lemma stream_rows_written:
  assumes "stream_rows eng sales_data rows = (results, None)"
  shows "\<exists>out. write_rows results = (out, None) \<and> length out = length rows"
  using assms
proof (induction rows arbitrary: results)
  case Nil
  then show ?case by simp
next
  case (Cons p rows)
  from Cons.prems obtain r rs where
    r: "bind_err (getitem p ''sku'') (\<lambda>k. process_product eng p (product_sales sales_data k)) = Inr r"
    and rs: "stream_rows eng sales_data rows = (rs, None)" and res: "results = r # rs"
    by (auto split: sum.splits prod.splits)
  from format_row_decision[OF r] obtain row where row: "format_row r = Inr row" by blast
  from Cons.IH[OF rs] obtain out where "write_rows rs = (out, None)" "length out = length rows"
    by blast
  with row res show ?case by simp
qed

text \<open>
  C3, as the code has it. With the standard four rules, a row whose stock, current
  price or cost price is missing or does not convert makes \<open>process_product\<close> raise
  a built-in exception: a \<open>KeyError\<close>, a \<open>ValueError\<close>, a \<open>TypeError\<close> or an
  \<open>OverflowError\<close>. The exception ends the generator: the decisions of the rows
  before the bad row are written, no row after it is evaluated, and \<open>process_files\<close>
  reports the exception for the whole pass.
\<close>

theorem malformed_row_ends_the_pass:
  assumes "pricing_engine h = standard_engine"
    and "load_sales_data lib fs (sales_file h) = Inr sales_data"
    and "fs (products_file h) = Some text"
    and "csv_DictReader lib text = pre @ bad # post"
    and "stream_rows standard_engine sales_data pre = (results, None)"
    and "malformed bad"
  shows "\<exists>e out. run_pass lib h fs = (fs(output_file h \<mapsto> csv_DictWriter lib out), Some e) \<and>
           ((\<exists>k. e = KeyError k) \<or> e = ValueError \<or> e = TypeError \<or> e = OverflowError) \<and>
           write_rows results = (out, None) \<and> length out = length pre \<and>
           (\<forall>h' fs' msg. process_files lib (h, fs) = (h', fs', msg) \<and> msg \<noteq> None \<longrightarrow>
              msg = Some (Error_processing e))"
proof -
  from malformed_row_fails[OF assms(6)] obtain e where
    e: "bind_err (getitem bad ''sku'') (\<lambda>k.
               process_product standard_engine bad (product_sales sales_data k)) = Inl e" by blast
  have kind: "(\<exists>k. e = KeyError k) \<or> e = ValueError \<or> e = TypeError \<or> e = OverflowError"
    using row_error[OF e] by (simp add: data_error_iff)
  have s: "stream_rows standard_engine sales_data (pre @ bad # post) = (results, Some e)"
    by (rule stream_rows_prefix[OF assms(5) e])
  have pp: "process_products lib fs (products_file h) (sales_file h) (pricing_engine h) =
     (results, Some e)"
    by (simp add: process_products_def assms(1-4) s)
  from stream_rows_written[OF assms(5)] obtain out where
    out: "write_rows results = (out, None)" "length out = length pre" by blast
  have rp: "run_pass lib h fs = (fs(output_file h \<mapsto> csv_DictWriter lib out), Some e)"
    by (simp add: run_pass_def pp write_output_def out)
  have "msg = Some (Error_processing e)"
    if "process_files lib (h, fs) = (h', fs', msg) \<and> msg \<noteq> None" for h' fs' msg
    using that by (auto simp: process_files_eq run_pass_refreshed rp split: if_splits)
  with rp kind out show ?thesis by blast
qed

theorem malformed_row_ends_the_pass_witness:
  "malformed bad_stock_row \<and>
   csv_DictReader sample_lib ''bad row second'' = [example_product_row] @ bad_stock_row # [thin_margin_row] \<and>
   (\<exists>e out. run_pass sample_lib sample_handler bad_second_fs =
       (bad_second_fs(output_file sample_handler \<mapsto> csv_DictWriter sample_lib out), Some e) \<and>
       length out = length [example_product_row]) \<and>
   run_pass sample_lib sample_handler bad_second_fs =
     (bad_second_fs(''updated_prices.csv'' \<mapsto> ''$10.00 $10.80; ''), Some ValueError)"
proof -
  have m: "malformed bad_stock_row"
    by (simp add: malformed_def is_ok_def bad_stock_row_def getitem_def py_int_def parse_abc)
  have a1: "pricing_engine sample_handler = standard_engine"
    and a2: "load_sales_data sample_lib bad_second_fs (sales_file sample_handler) =
              Inr [PStr ''A1'' \<mapsto> example_sales_row]"
    and a3: "bad_second_fs (products_file sample_handler) = Some ''bad row second''"
    by (simp_all add: sample_handler_def sample_load) (simp add: bad_second_fs_def)
  have a4: "csv_DictReader sample_lib ''bad row second'' =
      [example_product_row] @ bad_stock_row # [thin_margin_row]"
    by (simp add: sample_reader)
  have a5: "stream_rows standard_engine [PStr ''A1'' \<mapsto> example_sales_row] [example_product_row] =
     ([example_product_row(''old_price'' \<mapsto> PFloat (Finite 10),
            ''new_price'' \<mapsto> PFloat (Finite (3039929748475085 / 281474976710656)))], None)"
  proof -
    have "getitem example_product_row ''sku'' = Inr (PStr ''A1'')"
      by (simp add: getitem_def example_product_row_def)
    then show ?thesis by (simp add: sample_product_sales example_row_decision)
  qed
  from malformed_row_ends_the_pass[OF a1 a2 a3 a4 a5 m]
  have "\<exists>e out. run_pass sample_lib sample_handler bad_second_fs =
       (bad_second_fs(output_file sample_handler \<mapsto> csv_DictWriter sample_lib out), Some e) \<and>
       length out = length [example_product_row]"
    by blast
  with m a4 bad_second_pass show ?thesis by blast
qed

text \<open>
  The claim as stated fails: in a batch whose first row has the stock \<open>abc\<close> and whose
  second row is well formed, the pass ends with a bare \<open>ValueError\<close> and the output
  holds no row, although the second row evaluates on its own.
\<close>

theorem bad_row_aborts_batch_counterexample:
  "csv_DictReader sample_lib ''bad row first'' = [bad_stock_row, example_product_row] \<and>
   process_product standard_engine example_product_row example_sales_row =
     Inr (example_product_row(''old_price'' \<mapsto> PFloat (Finite 10),
            ''new_price'' \<mapsto> PFloat (Finite (3039929748475085 / 281474976710656)))) \<and>
   process_products sample_lib bad_first_fs ''products.csv'' ''sales.csv'' standard_engine =
     ([], Some ValueError) \<and>
   run_pass sample_lib sample_handler bad_first_fs =
     (bad_first_fs(''updated_prices.csv'' \<mapsto> csv_DictWriter sample_lib []), Some ValueError)"
  using sample_reader(2) example_row_decision bad_first_products bad_first_pass
  by (simp add: sample_lib_def)

subsection \<open>Witnesses of the checks\<close>

theorem fingerprints_refreshed_by_every_check_witness:
  "process_files sample_lib (sample_handler, bad_first_fs) =
     (sample_handler\<lparr>products_hash := ''digest of bad row first'', sales_hash := ''digest of one sale''\<rparr>,
      bad_first_fs(''updated_prices.csv'' \<mapsto> []),
      Some (Error_processing ValueError)) \<and>
   process_files sample_lib
     (sample_handler\<lparr>products_hash := ''digest of bad row first'', sales_hash := ''digest of one sale''\<rparr>,
      bad_first_fs(''updated_prices.csv'' \<mapsto> [])) =
     (sample_handler\<lparr>products_hash := ''digest of bad row first'', sales_hash := ''digest of one sale''\<rparr>,
      bad_first_fs(''updated_prices.csv'' \<mapsto> []), None)"
proof -
  have r: "refreshed sample_lib sample_handler bad_first_fs =
      sample_handler\<lparr>products_hash := ''digest of bad row first'', sales_hash := ''digest of one sale''\<rparr>"
    by (simp add: refreshed_def sample_handler_def calculate_file_hash_def bad_first_fs_def sample_lib_def)
  have c: "calculate_file_hash sample_lib bad_first_fs (products_file sample_handler) \<noteq>
      products_hash sample_handler"
    by (simp add: sample_handler_def calculate_file_hash_def bad_first_fs_def sample_lib_def)
  have p: "process_files sample_lib (sample_handler, bad_first_fs) =
     (sample_handler\<lparr>products_hash := ''digest of bad row first'', sales_hash := ''digest of one sale''\<rparr>,
      bad_first_fs(''updated_prices.csv'' \<mapsto> []),
      Some (Error_processing ValueError))"
    using c by (simp add: process_files_eq run_pass_refreshed bad_first_pass) (simp add: r)
  have d: "output_file sample_handler \<noteq> products_file sample_handler \<and>
           output_file sample_handler \<noteq> sales_file sample_handler"
    by (simp add: sample_handler_def)
  from fingerprints_refreshed_by_every_check[OF p] d p show ?thesis by blast
qed

theorem pass_is_idempotent_witness:
  "output_file sample_handler \<noteq> products_file sample_handler \<and>
   output_file sample_handler \<noteq> sales_file sample_handler \<and>
   run_pass sample_lib sample_handler (fst (run_pass sample_lib sample_handler bad_second_fs)) =
     run_pass sample_lib sample_handler bad_second_fs \<and>
   fst (run_pass sample_lib sample_handler bad_second_fs) ''updated_prices.csv'' =
     Some ''$10.00 $10.80; ''"
proof -
  have d1: "output_file sample_handler \<noteq> products_file sample_handler"
    and d2: "output_file sample_handler \<noteq> sales_file sample_handler"
    by (simp_all add: sample_handler_def)
  from pass_is_idempotent[OF d1 d2, of sample_lib bad_second_fs]
  have "run_pass sample_lib sample_handler (fst (run_pass sample_lib sample_handler bad_second_fs)) =
     run_pass sample_lib sample_handler bad_second_fs" by (rule conjunct1)
  with d1 d2 show ?thesis by (simp add: bad_second_pass)
qed

end
